theory Spec2Isabelle
  imports Complex_Main
begin

section \<open>Constants (constants.py)\<close>

definition MAX_CYCLE_HOURS :: rat where
  "MAX_CYCLE_HOURS = 70"

definition AVERAGE_SPEED :: rat where
  "AVERAGE_SPEED = 50"

definition FUEL_INTERVAL :: int where
  "FUEL_INTERVAL = 1000"

definition REST_BREAK_INTERVAL :: int where
  "REST_BREAK_INTERVAL = 8"

section \<open>Python numerics\<close>

text \<open>
  Hours and miles are Python floats in the source. They are modelled as exact
  rationals: the theorems below are about the control flow and the arithmetic of
  the planner and the simulator, not about binary rounding error.
\<close>

text \<open>
  Where a result is truncated or tested against a threshold right after a float
  operation, the binary rounding of that operation decides the outcome. There the
  operation is a parameter: every finite float is a rational, so float values are of
  type \<open>rat\<close>, and \<open>float_ops\<close> holds the rounding operations of the interpreter
  (\<^verbatim>\<open>+\<close>, \<^verbatim>\<open>-\<close>, \<^verbatim>\<open>*\<close>, \<^verbatim>\<open>/\<close> and \<^verbatim>\<open>round(x, 2)\<close> on floats). What is proved for every
  \<open>float_ops\<close> holds for the operations of IEEE doubles. Comparisons of floats are exact.
\<close>

record float_ops =
  fl_add :: "rat \<Rightarrow> rat \<Rightarrow> rat"
  fl_sub :: "rat \<Rightarrow> rat \<Rightarrow> rat"
  fl_mul :: "rat \<Rightarrow> rat \<Rightarrow> rat"
  fl_div :: "rat \<Rightarrow> rat \<Rightarrow> rat"
  fl_round2 :: "rat \<Rightarrow> rat"

text \<open>\<^verbatim>\<open>int(x)\<close> on a float truncates towards zero.\<close>

definition py_int :: "rat \<Rightarrow> int" where
  "py_int x = (if 0 \<le> x then \<lfloor>x\<rfloor> else \<lceil>x\<rceil>)"

text \<open>\<^verbatim>\<open>round(x, 2)\<close>: the nearest hundredth, ties to the even neighbour.\<close>

definition round_half_even :: "rat \<Rightarrow> int" where
  "round_half_even y =
     (let f = \<lfloor>y\<rfloor>; d = y - of_int f
      in if d < 1 / 2 then f
         else if 1 / 2 < d then f + 1
         else if even f then f else f + 1)"

definition round2 :: "rat \<Rightarrow> rat" where
  "round2 x = of_int (round_half_even (x * 100)) / 100"

text \<open>\<^verbatim>\<open>range(a, b)\<close> as the list of its values.\<close>

definition py_range :: "int \<Rightarrow> int \<Rightarrow> int list" where
  "py_range a b = upto a (b - 1)"

text \<open>\<^verbatim>\<open>str(i)\<close> for the integers interpolated into stop labels.\<close>

definition digit_char :: "nat \<Rightarrow> char" where
  "digit_char d = ''0123456789'' ! d"

fun str_nat :: "nat \<Rightarrow> string" where
  "str_nat n = (if n < 10 then [digit_char n] else str_nat (n div 10) @ [digit_char (n mod 10)])"

definition str_int :: "int \<Rightarrow> string" where
  "str_int i = (if i < 0 then CHR ''-'' # str_nat (nat (- i)) else str_nat (nat i))"

section \<open>Data model (models/trip.py, models/stop.py)\<close>

type_synonym coord = "rat \<times> rat"

datatype error =
    GeocodingFailed
  | InvalidGeometry
  | InsufficientPoints
  | ProviderError
  | ZeroDivisionError
  | IndexError
  | InsufficientStops
  | CycleExceeded

record trip =
  current_location :: string
  pickup_location :: string
  dropoff_location :: string
  current_cycle_used :: rat

datatype stop_type = Pickup | Fuel | Rest | Dropoff

text \<open>
  The JSON metadata of a stop: every key the source writes, \<open>None\<close> when the key is
  absent. \<^verbatim>\<open>search_radius_km\<close> can be present with the value \<^verbatim>\<open>None\<close>.
\<close>

record metadata =
  coordinates :: "coord option"
  address :: "string option"
  estimated_mileage :: "int option"
  purpose :: "string option"
  is_fallback :: "bool option"
  search_radius_km :: "nat option option"

definition empty_metadata :: metadata where
  "empty_metadata =
     \<lparr>coordinates = None, address = None, estimated_mileage = None, purpose = None,
      is_fallback = None, search_radius_km = None\<rparr>"

text \<open>A Stop row; the foreign key to its trip is the trip the functions are called with.\<close>

record stop =
  location :: string
  stop_type :: stop_type
  duration_minutes :: int
  sequence :: int
  metadata :: metadata

record poi =
  poi_name :: string
  poi_address :: string
  poi_coordinates :: coord
  poi_distance_km :: rat

text \<open>
  What the planner takes from outside. The external providers with fixed responses:
  \<^verbatim>\<open>geocode_location\<close> (\<open>None\<close> when it raises \<^verbatim>\<open>ValueError\<close>) and
  \<^verbatim>\<open>find_poi_near_location\<close>, which returns a point of interest or \<^verbatim>\<open>None\<close>, or lets
  an exception of the reverse geocoder escape. And \<open>arith\<close>, the float operations behind
  the route index.
\<close>

record providers =
  geocode_location :: "string \<Rightarrow> coord option"
  find_poi_near_location :: "coord \<Rightarrow> string list \<Rightarrow> nat \<Rightarrow> error + poi option"
  arith :: float_ops

section \<open>Stop planner (services.py, calculate_stop_points)\<close>

text \<open>\<^verbatim>\<open>route_coords[idx]\<close> raises \<^verbatim>\<open>IndexError\<close> out of range.\<close>

definition route_at :: "coord list \<Rightarrow> int \<Rightarrow> error + coord" where
  "route_at route_coords idx =
     (let n = int (length route_coords); j = (if idx < 0 then n + idx else idx)
      in if 0 \<le> j \<and> j < n then Inr (route_coords ! nat j) else Inl IndexError)"

text \<open>
  \<^verbatim>\<open>idx = max(1, min(int(progress * len(route_coords)), len(route_coords) - 2))\<close>:
  the float product, truncated.
\<close>

definition interp_index :: "providers \<Rightarrow> rat \<Rightarrow> nat \<Rightarrow> int" where
  "interp_index prov progress n =
     max 1 (min (py_int (fl_mul (arith prov) progress (of_nat n))) (int n - 2))"

text \<open>\<^verbatim>\<open>coords = route_coords[idx][::-1]\<close>: (lon, lat) becomes (lat, lon).\<close>

definition interpolate :: "providers \<Rightarrow> coord list \<Rightarrow> rat \<Rightarrow> error + coord" where
  "interpolate prov route_coords progress =
     (case route_at route_coords (interp_index prov progress (length route_coords)) of
        Inl e \<Rightarrow> Inl e
      | Inr (lon, lat) \<Rightarrow> Inr (lat, lon))"

text \<open>
  The radius ladder: the first radius with a hit, together with the hit.
\<close>

fun poi_ladder ::
  "providers \<Rightarrow> coord \<Rightarrow> string list \<Rightarrow> nat list \<Rightarrow> error + (poi \<times> nat) option" where
  "poi_ladder prov coords keywords [] = Inr None"
| "poi_ladder prov coords keywords (radius # radii) =
     (case find_poi_near_location prov coords keywords radius of
        Inl e \<Rightarrow> Inl e
      | Inr (Some p) \<Rightarrow> Inr (Some (p, radius))
      | Inr None \<Rightarrow> poi_ladder prov coords keywords radii)"

definition fuel_keywords :: "string list" where
  "fuel_keywords = [''fuel'', ''gas station'', ''truck stop'', ''petrol station'']"

definition rest_keywords :: "string list" where
  "rest_keywords = [''rest area'', ''truck rest area'', ''highway rest stop'', ''rest station'']"

definition pickup_stop :: "trip \<Rightarrow> coord \<Rightarrow> int \<Rightarrow> stop" where
  "pickup_stop t pickup_coords sq =
     \<lparr>location = pickup_location t, stop_type = Pickup, duration_minutes = 60, sequence = sq,
      metadata = empty_metadata\<lparr>coordinates := Some pickup_coords,
                                purpose := Some ''Load pickup''\<rparr>\<rparr>"

definition dropoff_stop :: "trip \<Rightarrow> coord \<Rightarrow> int \<Rightarrow> stop" where
  "dropoff_stop t dropoff_coords sq =
     \<lparr>location = dropoff_location t, stop_type = Dropoff, duration_minutes = 60, sequence = sq,
      metadata = empty_metadata\<lparr>coordinates := Some dropoff_coords,
                                purpose := Some ''Unload delivery''\<rparr>\<rparr>"

definition fuel_stop :: "int \<Rightarrow> int \<Rightarrow> coord \<Rightarrow> (poi \<times> nat) option \<Rightarrow> int \<Rightarrow> stop" where
  "fuel_stop i mile_marker coords found sq =
     \<lparr>location = (case found of Some (p, r) \<Rightarrow> poi_name p
                                | None \<Rightarrow> ''Fuel stop #'' @ str_int i),
      stop_type = Fuel, duration_minutes = 30, sequence = sq,
      metadata =
        \<lparr>coordinates = Some (case found of Some (p, r) \<Rightarrow> poi_coordinates p | None \<Rightarrow> coords),
         address = Some (case found of Some (p, r) \<Rightarrow> poi_address p | None \<Rightarrow> []),
         estimated_mileage = Some mile_marker,
         purpose = Some (''Fuel stop #'' @ str_int i),
         is_fallback = Some (found = None),
         search_radius_km = Some (map_option snd found)\<rparr>\<rparr>"

definition rest_stop :: "int \<Rightarrow> coord \<Rightarrow> (poi \<times> nat) option \<Rightarrow> int \<Rightarrow> stop" where
  "rest_stop i coords found sq =
     \<lparr>location = (case found of Some (p, r) \<Rightarrow> poi_name p
                                | None \<Rightarrow> ''Rest stop #'' @ str_int i),
      stop_type = Rest, duration_minutes = 30, sequence = sq,
      metadata =
        \<lparr>coordinates = Some (case found of Some (p, r) \<Rightarrow> poi_coordinates p | None \<Rightarrow> coords),
         address = Some (case found of Some (p, r) \<Rightarrow> poi_address p | None \<Rightarrow> []),
         estimated_mileage = None,
         purpose = Some (''Mandatory rest break #'' @ str_int i),
         is_fallback = Some (found = None),
         search_radius_km = Some (map_option snd found)\<rparr>\<rparr>"

text \<open>
  \<^verbatim>\<open>progress = mile_marker / total_miles\<close>, a float division, raises on a zero divisor.
\<close>

definition progress_of :: "providers \<Rightarrow> rat \<Rightarrow> rat \<Rightarrow> error + rat" where
  "progress_of prov miles total_miles =
     (if total_miles = 0 then Inl ZeroDivisionError
      else Inr (fl_div (arith prov) miles total_miles))"

text \<open>
  Step 2, the loop \<^verbatim>\<open>for i in range(1, fuel_needed + 1)\<close> over the list of its indices;
  the state is the stop list and the next sequence number.
\<close>

fun fuel_loop ::
  "providers \<Rightarrow> rat \<Rightarrow> coord list \<Rightarrow> int list \<Rightarrow> stop list \<times> int \<Rightarrow> error + stop list \<times> int" where
  "fuel_loop prov total_miles route_coords [] acc = Inr acc"
| "fuel_loop prov total_miles route_coords (i # is) (stops, sq) =
     (let mile_marker = i * FUEL_INTERVAL
      in if total_miles * (95 / 100) \<le> of_int mile_marker then Inr (stops, sq)
         else (case progress_of prov (of_int mile_marker) total_miles of
           Inl e \<Rightarrow> Inl e
         | Inr progress \<Rightarrow>
             (case interpolate prov route_coords progress of
                Inl e \<Rightarrow> Inl e
              | Inr coords \<Rightarrow>
                  (case poi_ladder prov coords fuel_keywords [10, 20, 40] of
                     Inl e \<Rightarrow> Inl e
                   | Inr found \<Rightarrow>
                       fuel_loop prov total_miles route_coords is
                         (stops @ [fuel_stop i mile_marker coords found sq], sq + 1)))))"

text \<open>Step 3, the loop over the rest breaks.\<close>

fun rest_loop ::
  "providers \<Rightarrow> rat \<Rightarrow> coord list \<Rightarrow> int list \<Rightarrow> stop list \<times> int \<Rightarrow> error + stop list \<times> int" where
  "rest_loop prov total_miles route_coords [] acc = Inr acc"
| "rest_loop prov total_miles route_coords (i # is) (stops, sq) =
     (let break_miles = of_int (i * REST_BREAK_INTERVAL) * AVERAGE_SPEED
      in if total_miles * (9 / 10) \<le> break_miles then Inr (stops, sq)
         else (case progress_of prov break_miles total_miles of
           Inl e \<Rightarrow> Inl e
         | Inr progress \<Rightarrow>
             (case interpolate prov route_coords progress of
                Inl e \<Rightarrow> Inl e
              | Inr coords \<Rightarrow>
                  (case poi_ladder prov coords rest_keywords [10, 20, 40] of
                     Inl e \<Rightarrow> Inl e
                   | Inr found \<Rightarrow>
                       rest_loop prov total_miles route_coords is
                         (stops @ [rest_stop i coords found sq], sq + 1)))))"

text \<open>
  The body of the \<^verbatim>\<open>try\<close> block. \<open>route_geometry\<close> is \<open>None\<close> when the geometry is
  empty or has no \<^verbatim>\<open>coordinates\<close> key.
\<close>

definition calculate_stop_points_try ::
  "providers \<Rightarrow> trip \<Rightarrow> rat \<Rightarrow> coord list option \<Rightarrow> error + stop list" where
  "calculate_stop_points_try prov t total_miles route_geometry =
     (let estimated_drive_hours = total_miles / AVERAGE_SPEED
      in case route_geometry of
        None \<Rightarrow> Inl InvalidGeometry
      | Some route_coords \<Rightarrow>
          if length route_coords < 2 then Inl InsufficientPoints
          else (case geocode_location prov (pickup_location t) of
            None \<Rightarrow> Inl GeocodingFailed
          | Some pickup_coords \<Rightarrow>
              (let fuel_needed = py_int (of_int \<lfloor>total_miles / of_int FUEL_INTERVAL\<rfloor>)
               in case fuel_loop prov total_miles route_coords (py_range 1 (fuel_needed + 1))
                         ([pickup_stop t pickup_coords 1], 2) of
                 Inl e \<Rightarrow> Inl e
               | Inr acc \<Rightarrow>
                   (case rest_loop prov total_miles route_coords
                           (py_range 1
                              (py_int (of_int \<lfloor>estimated_drive_hours / of_int REST_BREAK_INTERVAL\<rfloor>) + 1))
                           acc of
                      Inl e \<Rightarrow> Inl e
                    | Inr (stops, sq) \<Rightarrow>
                        (case geocode_location prov (dropoff_location t) of
                           None \<Rightarrow> Inl GeocodingFailed
                         | Some dropoff_coords \<Rightarrow>
                             Inr (sort_key sequence (stops @ [dropoff_stop t dropoff_coords sq])))))))"

text \<open>
  The \<^verbatim>\<open>except Exception\<close> handler: two stops with freshly geocoded coordinates;
  a geocoding failure here leaves the function as an exception.
\<close>

definition calculate_stop_points_except :: "providers \<Rightarrow> trip \<Rightarrow> error + stop list" where
  "calculate_stop_points_except prov t =
     (case geocode_location prov (pickup_location t) of
        None \<Rightarrow> Inl GeocodingFailed
      | Some pickup_coords \<Rightarrow>
          (case geocode_location prov (dropoff_location t) of
             None \<Rightarrow> Inl GeocodingFailed
           | Some dropoff_coords \<Rightarrow>
               Inr [\<lparr>location = pickup_location t, stop_type = Pickup, duration_minutes = 60,
                     sequence = 1,
                     metadata = empty_metadata\<lparr>coordinates := Some pickup_coords\<rparr>\<rparr>,
                    \<lparr>location = dropoff_location t, stop_type = Dropoff, duration_minutes = 60,
                     sequence = 2,
                     metadata = empty_metadata\<lparr>coordinates := Some dropoff_coords\<rparr>\<rparr>]))"

definition calculate_stop_points ::
  "providers \<Rightarrow> trip \<Rightarrow> rat \<Rightarrow> coord list option \<Rightarrow> error + stop list" where
  "calculate_stop_points prov t total_miles route_geometry =
     (case calculate_stop_points_try prov t total_miles route_geometry of
        Inr stops \<Rightarrow> Inr stops
      | Inl e \<Rightarrow> calculate_stop_points_except prov t)"

section \<open>Caller-level fallback (views.py)\<close>

definition create_basic_trip_stops :: "trip \<Rightarrow> stop list" where
  "create_basic_trip_stops t =
     [\<lparr>location = pickup_location t, stop_type = Pickup, duration_minutes = 60, sequence = 1,
       metadata = empty_metadata\<lparr>purpose := Some ''Load pickup (fallback)'',
                                 is_fallback := Some True\<rparr>\<rparr>,
      \<lparr>location = dropoff_location t, stop_type = Dropoff, duration_minutes = 60, sequence = 2,
       metadata = empty_metadata\<lparr>purpose := Some ''Unload delivery (fallback)'',
                                 is_fallback := Some True\<rparr>\<rparr>]"

definition calculate_stops_with_fallback ::
  "providers \<Rightarrow> trip \<Rightarrow> rat \<Rightarrow> coord list option \<Rightarrow> stop list" where
  "calculate_stops_with_fallback prov t total_miles route_geometry =
     (case calculate_stop_points prov t total_miles route_geometry of
        Inl e \<Rightarrow> create_basic_trip_stops t
      | Inr stops \<Rightarrow>
          if length stops < 2 then create_basic_trip_stops t else stops)"

section \<open>Duty log simulator (services.py, generate_eld_logs_with_stops)\<close>

datatype event_type = Driving | On_duty | Stop_event stop_type

text \<open>
  The metadata of an event: from, to and estimated miles for a driving event, the
  stop's metadata for a stop event, no key at all for the mandatory rest.
\<close>

datatype event_metadata =
    Drive_metadata string string rat
  | Stop_metadata metadata
  | No_metadata

record event =
  ev_type :: event_type
  ev_start :: rat
  ev_end :: rat
  ev_location :: string
  ev_metadata :: event_metadata

text \<open>
  One appended log record. The date is a day count: the date read from the clock when
  the record is built, plus \<open>day - 1\<close> days
  (\<^verbatim>\<open>datetime.now() + timedelta(days=day - 1)\<close>).
\<close>

record logday =
  day :: int
  date :: int
  events :: "event list"
  odometer :: rat

text \<open>
  The wall clock. The source calls \<^verbatim>\<open>datetime.now()\<close> once for every record it
  appends, so the clock is read by the number of records appended before: \<open>now k\<close> is
  the date at the moment record \<open>k\<close> is built.
\<close>

type_synonym clock = "nat \<Rightarrow> int"

record sim_state =
  st_logs :: "logday list"
  st_day :: int
  current_hour :: rat
  st_odometer :: rat
  daily_drive_hours :: rat

text \<open>The rollover at the head of the driving loop: an empty marker record, then a new day.\<close>

definition start_new_day :: "clock \<Rightarrow> sim_state \<Rightarrow> sim_state" where
  "start_new_day now st =
     st\<lparr>st_logs := st_logs st @
           [\<lparr>day = st_day st, date = now (length (st_logs st)) + (st_day st - 1), events = [],
             odometer = round2 (st_odometer st)\<rparr>],
        st_day := st_day st + 1, current_hour := 0, daily_drive_hours := 0\<rparr>"

text \<open>The driving chunk of one iteration and the record appended for it.\<close>

definition record_driving :: "clock \<Rightarrow> stop \<Rightarrow> stop \<Rightarrow> rat \<Rightarrow> sim_state \<Rightarrow> sim_state" where
  "record_driving now prev stop max_drive_today st =
     (let event_start = current_hour st;
          event_end = current_hour st + max_drive_today;
          odo = st_odometer st + max_drive_today * AVERAGE_SPEED
      in st\<lparr>current_hour := event_end,
            st_odometer := odo,
            daily_drive_hours := daily_drive_hours st + max_drive_today,
            st_logs := st_logs st @
              [\<lparr>day = st_day st, date = now (length (st_logs st)) + (st_day st - 1),
                events = [\<lparr>ev_type = Driving, ev_start = round2 event_start,
                           ev_end = round2 event_end,
                           ev_location = ''Driving to '' @ location stop,
                           ev_metadata = Drive_metadata (location prev) (location stop)
                                           (round2 (max_drive_today * AVERAGE_SPEED))\<rparr>],
                odometer = round2 odo\<rparr>]\<rparr>)"

text \<open>The mandatory rest: appended to the events of the last record, \<^verbatim>\<open>logs[-1]\<close>.\<close>

definition insert_rest_break :: "sim_state \<Rightarrow> sim_state" where
  "insert_rest_break st =
     st\<lparr>st_logs := butlast (st_logs st) @
           [(last (st_logs st))\<lparr>events := events (last (st_logs st)) @
              [\<lparr>ev_type = On_duty, ev_start = round2 (current_hour st),
                ev_end = round2 (current_hour st + 1 / 2),
                ev_location = ''Mandatory 30-minute rest'',
                ev_metadata = No_metadata\<rparr>]\<rparr>],
        current_hour := current_hour st + 1 / 2,
        daily_drive_hours := 0\<rparr>"

text \<open>One iteration of \<^verbatim>\<open>while drive_hours > 0\<close>: the new state and the hours left.\<close>

definition drive_chunk :: "clock \<Rightarrow> stop \<Rightarrow> stop \<Rightarrow> sim_state \<Rightarrow> rat \<Rightarrow> sim_state \<times> rat" where
  "drive_chunk now prev stop st drive_hours =
     (let st1 = (if 11 \<le> daily_drive_hours st \<or> 14 \<le> current_hour st
                 then start_new_day now st else st);
          max_drive_today = min (11 - daily_drive_hours st1) drive_hours;
          st2 = record_driving now prev stop max_drive_today st1;
          st3 = (if 8 \<le> daily_drive_hours st2 then insert_rest_break st2 else st2)
      in (st3, drive_hours - max_drive_today))"

text \<open>The loop \<^verbatim>\<open>while drive_hours > 0\<close>.\<close>

function drive_loop :: "clock \<Rightarrow> stop \<Rightarrow> stop \<Rightarrow> sim_state \<Rightarrow> rat \<Rightarrow> sim_state" where
  "drive_loop now prev stop st drive_hours =
     (if 0 < drive_hours
      then (case drive_chunk now prev stop st drive_hours of
              (st', drive_hours') \<Rightarrow> drive_loop now prev stop st' drive_hours')
      else st)"
  by pat_completeness auto
termination
proof (relation "measure (\<lambda>(now, prev, stop, st, drive_hours).
          2 * nat \<lceil>drive_hours / 11\<rceil> +
          (if daily_drive_hours st = 0 \<or> 11 \<le> daily_drive_hours st \<or> 14 \<le> current_hour st
           then 0 else 1))", goal_cases)
  case 1
  show ?case by simp
next
  case (2 now prev stop st drive_hours x1 x2)
  define d where "d = (if 11 \<le> daily_drive_hours st \<or> 14 \<le> current_hour st
                       then 0 else daily_drive_hours st)"
  define m where "m = min (11 - d) drive_hours"
  have d11: "d < 11" by (simp add: d_def)
  have x2: "x2 = drive_hours - m"
    using 2(2) by (simp add: drive_chunk_def Let_def start_new_day_def m_def d_def split: if_splits)
  have dx1: "daily_drive_hours x1 = (if 8 \<le> d + m then 0 else d + m)"
    using 2(2)
    by (auto simp add: drive_chunk_def Let_def start_new_day_def record_driving_def
        insert_rest_break_def m_def d_def split: if_splits)
  have flag: "(daily_drive_hours st = 0 \<or> 11 \<le> daily_drive_hours st \<or> 14 \<le> current_hour st)
                \<Longrightarrow> d = 0"
    by (auto simp: d_def)
  define c where "c = nat \<lceil>drive_hours / 11\<rceil>"
  define c' where "c' = nat \<lceil>x2 / 11\<rceil>"
  define f :: nat where "f = (if daily_drive_hours st = 0 \<or> 11 \<le> daily_drive_hours st \<or>
                                 14 \<le> current_hour st then 0 else 1)"
  define f' :: nat where "f' = (if daily_drive_hours x1 = 0 \<or> 11 \<le> daily_drive_hours x1 \<or>
                                  14 \<le> current_hour x1 then 0 else 1)"
  have pos: "1 \<le> c"
    using 2(1) by (simp add: c_def Suc_le_eq)
  have f'1: "f' \<le> 1" by (simp add: f'_def)
  have key: "2 * c' + f' < 2 * c + f"
  proof (cases "drive_hours \<le> 11 - d")
    case True
    then have "c' = 0" by (simp add: c'_def x2 m_def)
    with pos f'1 show ?thesis by linarith
  next
    case False
    then have m: "m = 11 - d" by (simp add: m_def)
    then have dz: "f' = 0" by (simp add: dx1 f'_def)
    have le: "c' \<le> c"
      unfolding c_def c'_def using d11 by (intro nat_mono ceiling_mono) (simp add: x2 m)
    show ?thesis
    proof (cases "f = 0")
      case True
      then have "d = 0" using flag by (simp add: f_def split: if_splits)
      then have eq: "x2 / 11 = drive_hours / 11 - 1" by (simp add: x2 m field_simps)
      have "\<lceil>x2 / 11\<rceil> = \<lceil>drive_hours / 11\<rceil> - 1"
        unfolding eq by (rule ceiling_diff_one)
      then have "c' < c"
        using pos unfolding c_def c'_def by linarith
      with dz show ?thesis by linarith
    next
      case False
      with le dz show ?thesis by linarith
    qed
  qed
  then show ?case
    unfolding c_def c'_def f_def f'_def in_measure prod.case .
qed

declare drive_loop.simps [simp del]

text \<open>
  \<^verbatim>\<open>segment_miles\<close>: the great-circle distance (of the external library, a parameter)
  when both stops carry coordinates, an even share of the total otherwise.
\<close>

definition segment_miles ::
  "(coord \<Rightarrow> coord \<Rightarrow> rat) \<Rightarrow> rat \<Rightarrow> nat \<Rightarrow> stop \<Rightarrow> stop \<Rightarrow> rat" where
  "segment_miles great_circle total_miles n prev stop =
     (case coordinates (metadata prev) of
        None \<Rightarrow> total_miles / (of_nat n - 1)
      | Some prev_coords \<Rightarrow>
          (case coordinates (metadata stop) of
             None \<Rightarrow> total_miles / (of_nat n - 1)
           | Some stop_coords \<Rightarrow> great_circle prev_coords stop_coords))"

text \<open>The stop's own event, after a silent rollover when it would end past hour 24.\<close>

definition add_stop_event :: "clock \<Rightarrow> stop \<Rightarrow> sim_state \<Rightarrow> sim_state" where
  "add_stop_event now stop st =
     (let stop_duration = of_int (duration_minutes stop) / 60;
          st1 = (if 24 < current_hour st + stop_duration
                 then st\<lparr>st_day := st_day st + 1, current_hour := 0, daily_drive_hours := 0\<rparr>
                 else st)
      in st1\<lparr>st_logs := st_logs st1 @
              [\<lparr>day = st_day st1, date = now (length (st_logs st1)) + (st_day st1 - 1),
                events = [\<lparr>ev_type = Stop_event (stop_type stop),
                           ev_start = round2 (current_hour st1),
                           ev_end = round2 (current_hour st1 + stop_duration),
                           ev_location = location stop,
                           ev_metadata = Stop_metadata (metadata stop)\<rparr>],
                odometer = round2 (st_odometer st1)\<rparr>],
             current_hour := current_hour st1 + stop_duration\<rparr>)"

text \<open>
  \<^verbatim>\<open>for i, stop in enumerate(stops)\<close>: \<open>prev\<close> is \<open>None\<close> at \<open>i = 0\<close> and
  \<^verbatim>\<open>stops[i - 1]\<close> afterwards; \<open>n\<close> is \<^verbatim>\<open>len(stops)\<close>.
\<close>

fun stops_loop ::
  "clock \<Rightarrow> (coord \<Rightarrow> coord \<Rightarrow> rat) \<Rightarrow> rat \<Rightarrow> nat \<Rightarrow> stop option \<Rightarrow> stop list \<Rightarrow>
   sim_state \<Rightarrow> sim_state" where
  "stops_loop now great_circle total_miles n prev [] st = st"
| "stops_loop now great_circle total_miles n prev (stop # rest) st =
     (let st1 = (case prev of
                   None \<Rightarrow> st
                 | Some p \<Rightarrow>
                     drive_loop now p stop st
                       (round2 (segment_miles great_circle total_miles n p stop / AVERAGE_SPEED)))
      in stops_loop now great_circle total_miles n (Some stop) rest (add_stop_event now stop st1))"

definition initial_state :: sim_state where
  "initial_state =
     \<lparr>st_logs = [], st_day = 1, current_hour = 0, st_odometer = 0, daily_drive_hours = 0\<rparr>"

text \<open>
  \<open>stops\<close> is the result of \<^verbatim>\<open>trip.stops.order_by('sequence')\<close>, \<open>now\<close> the
  clock. The function raises when the cycle is used up.
\<close>

definition generate_eld_logs_with_stops ::
  "clock \<Rightarrow> (coord \<Rightarrow> coord \<Rightarrow> rat) \<Rightarrow> trip \<Rightarrow> stop list \<Rightarrow> rat \<Rightarrow> error + logday list" where
  "generate_eld_logs_with_stops now great_circle t stops total_miles =
     (let remaining_cycle_hours = MAX_CYCLE_HOURS - current_cycle_used t
      in if remaining_cycle_hours \<le> 0 then Inl CycleExceeded
         else Inr (st_logs (stops_loop now great_circle total_miles (length stops) None stops
                              initial_state)))"

section \<open>Duty log simulator, float operations as parameters\<close>

text \<open>
  The same function once more, for the claims that turn on a threshold test of an
  accumulated float: every float operation of the source is taken from \<open>float_ops\<close>.
\<close>

text \<open>The rollover: the marker record and the new day.\<close>

definition fp_start_new_day :: "float_ops \<Rightarrow> clock \<Rightarrow> sim_state \<Rightarrow> sim_state" where
  "fp_start_new_day ops now st =
     st\<lparr>st_logs := st_logs st @
           [\<lparr>day = st_day st, date = now (length (st_logs st)) + (st_day st - 1), events = [],
             odometer = fl_round2 ops (st_odometer st)\<rparr>],
        st_day := st_day st + 1, current_hour := 0, daily_drive_hours := 0\<rparr>"

text \<open>\<^verbatim>\<open>if daily_drive_hours >= 11 or current_hour >= 14\<close>, at the head of an iteration.\<close>

definition fp_rollover :: "float_ops \<Rightarrow> clock \<Rightarrow> sim_state \<Rightarrow> sim_state" where
  "fp_rollover ops now st =
     (if 11 \<le> daily_drive_hours st \<or> 14 \<le> current_hour st
      then fp_start_new_day ops now st else st)"

text \<open>\<^verbatim>\<open>max_drive_today = min(11 - daily_drive_hours, drive_hours)\<close>\<close>

definition fp_max_drive_today :: "float_ops \<Rightarrow> sim_state \<Rightarrow> rat \<Rightarrow> rat" where
  "fp_max_drive_today ops st drive_hours =
     min (fl_sub ops 11 (daily_drive_hours st)) drive_hours"

text \<open>The bookkeeping of the chunk and the record appended for it.\<close>

definition fp_record_driving ::
  "float_ops \<Rightarrow> clock \<Rightarrow> stop \<Rightarrow> stop \<Rightarrow> rat \<Rightarrow> sim_state \<Rightarrow> sim_state" where
  "fp_record_driving ops now prev stop max_drive_today st =
     (let event_start = current_hour st;
          event_end = fl_add ops (current_hour st) max_drive_today;
          odo = fl_add ops (st_odometer st) (fl_mul ops max_drive_today AVERAGE_SPEED)
      in st\<lparr>current_hour := event_end,
            st_odometer := odo,
            daily_drive_hours := fl_add ops (daily_drive_hours st) max_drive_today,
            st_logs := st_logs st @
              [\<lparr>day = st_day st, date = now (length (st_logs st)) + (st_day st - 1),
                events = [\<lparr>ev_type = Driving, ev_start = fl_round2 ops event_start,
                           ev_end = fl_round2 ops event_end,
                           ev_location = ''Driving to '' @ location stop,
                           ev_metadata = Drive_metadata (location prev) (location stop)
                                           (fl_round2 ops (fl_mul ops max_drive_today AVERAGE_SPEED))\<rparr>],
                odometer = fl_round2 ops odo\<rparr>]\<rparr>)"

text \<open>The mandatory rest, appended to the events of \<^verbatim>\<open>logs[-1]\<close>.\<close>

definition fp_insert_rest_break :: "float_ops \<Rightarrow> sim_state \<Rightarrow> sim_state" where
  "fp_insert_rest_break ops st =
     st\<lparr>st_logs := butlast (st_logs st) @
           [(last (st_logs st))\<lparr>events := events (last (st_logs st)) @
              [\<lparr>ev_type = On_duty, ev_start = fl_round2 ops (current_hour st),
                ev_end = fl_round2 ops (fl_add ops (current_hour st) (1 / 2)),
                ev_location = ''Mandatory 30-minute rest'',
                ev_metadata = No_metadata\<rparr>]\<rparr>],
        current_hour := fl_add ops (current_hour st) (1 / 2),
        daily_drive_hours := 0\<rparr>"

text \<open>One iteration of \<^verbatim>\<open>while drive_hours > 0\<close>.\<close>

definition fp_drive_chunk ::
  "float_ops \<Rightarrow> clock \<Rightarrow> stop \<Rightarrow> stop \<Rightarrow> sim_state \<Rightarrow> rat \<Rightarrow> sim_state \<times> rat" where
  "fp_drive_chunk ops now prev stop st drive_hours =
     (let st1 = fp_rollover ops now st;
          max_drive_today = fp_max_drive_today ops st1 drive_hours;
          st2 = fp_record_driving ops now prev stop max_drive_today st1;
          st3 = (if 8 \<le> daily_drive_hours st2 then fp_insert_rest_break ops st2 else st2)
      in (st3, fl_sub ops drive_hours max_drive_today))"

text \<open>
  The loop. With arbitrary float operations it need not end, so it runs on fuel, one unit
  for each iteration: \<open>None\<close> says that the fuel ran out.
\<close>

fun fp_drive_loop ::
  "nat \<Rightarrow> float_ops \<Rightarrow> clock \<Rightarrow> stop \<Rightarrow> stop \<Rightarrow> sim_state \<Rightarrow> rat \<Rightarrow> sim_state option" where
  "fp_drive_loop 0 ops now prev stop st drive_hours =
     (if 0 < drive_hours then None else Some st)"
| "fp_drive_loop (Suc fuel) ops now prev stop st drive_hours =
     (if 0 < drive_hours
      then (case fp_drive_chunk ops now prev stop st drive_hours of
              (st', drive_hours') \<Rightarrow> fp_drive_loop fuel ops now prev stop st' drive_hours')
      else Some st)"

definition fp_segment_miles ::
  "float_ops \<Rightarrow> (coord \<Rightarrow> coord \<Rightarrow> rat) \<Rightarrow> rat \<Rightarrow> nat \<Rightarrow> stop \<Rightarrow> stop \<Rightarrow> rat" where
  "fp_segment_miles ops great_circle total_miles n prev stop =
     (case coordinates (metadata prev) of
        None \<Rightarrow> fl_div ops total_miles (of_nat n - 1)
      | Some prev_coords \<Rightarrow>
          (case coordinates (metadata stop) of
             None \<Rightarrow> fl_div ops total_miles (of_nat n - 1)
           | Some stop_coords \<Rightarrow> great_circle prev_coords stop_coords))"

definition fp_add_stop_event :: "float_ops \<Rightarrow> clock \<Rightarrow> stop \<Rightarrow> sim_state \<Rightarrow> sim_state" where
  "fp_add_stop_event ops now stop st =
     (let stop_duration = fl_div ops (of_int (duration_minutes stop)) 60;
          st1 = (if 24 < fl_add ops (current_hour st) stop_duration
                 then st\<lparr>st_day := st_day st + 1, current_hour := 0, daily_drive_hours := 0\<rparr>
                 else st)
      in st1\<lparr>st_logs := st_logs st1 @
              [\<lparr>day = st_day st1, date = now (length (st_logs st1)) + (st_day st1 - 1),
                events = [\<lparr>ev_type = Stop_event (stop_type stop),
                           ev_start = fl_round2 ops (current_hour st1),
                           ev_end = fl_round2 ops (fl_add ops (current_hour st1) stop_duration),
                           ev_location = location stop,
                           ev_metadata = Stop_metadata (metadata stop)\<rparr>],
                odometer = fl_round2 ops (st_odometer st1)\<rparr>],
             current_hour := fl_add ops (current_hour st1) stop_duration\<rparr>)"

text \<open>The loop over the stops; every driving loop gets the same fuel.\<close>

fun fp_stops_loop ::
  "nat \<Rightarrow> float_ops \<Rightarrow> clock \<Rightarrow> (coord \<Rightarrow> coord \<Rightarrow> rat) \<Rightarrow> rat \<Rightarrow> nat \<Rightarrow> stop option \<Rightarrow>
   stop list \<Rightarrow> sim_state \<Rightarrow> sim_state option" where
  "fp_stops_loop fuel ops now great_circle total_miles n prev [] st = Some st"
| "fp_stops_loop fuel ops now great_circle total_miles n prev (stop # rest) st =
     (case (case prev of
              None \<Rightarrow> Some st
            | Some p \<Rightarrow>
                fp_drive_loop fuel ops now p stop st
                  (fl_round2 ops
                     (fl_div ops (fp_segment_miles ops great_circle total_miles n p stop)
                        AVERAGE_SPEED))) of
        None \<Rightarrow> None
      | Some st1 \<Rightarrow>
          fp_stops_loop fuel ops now great_circle total_miles n (Some stop) rest
            (fp_add_stop_event ops now stop st1))"

definition fp_generate_eld_logs_with_stops ::
  "nat \<Rightarrow> float_ops \<Rightarrow> clock \<Rightarrow> (coord \<Rightarrow> coord \<Rightarrow> rat) \<Rightarrow> trip \<Rightarrow> stop list \<Rightarrow> rat \<Rightarrow>
   (error + logday list) option" where
  "fp_generate_eld_logs_with_stops fuel ops now great_circle t stops total_miles =
     (let remaining_cycle_hours = fl_sub ops MAX_CYCLE_HOURS (current_cycle_used t)
      in if remaining_cycle_hours \<le> 0 then Some (Inl CycleExceeded)
         else map_option (\<lambda>st. Inr (st_logs st))
                (fp_stops_loop fuel ops now great_circle total_miles (length stops) None stops
                   initial_state))"




section \<open>Planning and simulating (views.py, post)\<close>


section \<open>Notions of the specification\<close>

text \<open>The driving hours a log list records under one day number.\<close>

definition day_driving_hours :: "int \<Rightarrow> logday list \<Rightarrow> rat" where
  "day_driving_hours d lgs =
     sum_list (map (\<lambda>e. ev_end e - ev_start e)
       (filter (\<lambda>e. ev_type e = Driving) (concat (map events (filter (\<lambda>l. day l = d) lgs)))))"

text \<open>
  What the specification asks of a planned stop list: not empty, sequence numbers
  starting at 1, strictly ascending and unique, a pickup first and a dropoff last.
\<close>

definition planner_invariant :: "stop list \<Rightarrow> bool" where
  "planner_invariant stops \<longleftrightarrow>
     stops \<noteq> [] \<and> sequence (hd stops) = 1 \<and>
     sorted_wrt (<) (map sequence stops) \<and> distinct (map sequence stops) \<and>
     stop_type (hd stops) = Pickup \<and> stop_type (last stops) = Dropoff"

text \<open>The hours of an event as the specification has them: within [0, 24).\<close>

definition event_within_day :: "event \<Rightarrow> bool" where
  "event_within_day e \<longleftrightarrow> 0 \<le> ev_start e \<and> ev_end e < 24"

text \<open>
  The hours of an event as the guards of the simulator keep them: a stop event ends by
  hour 24, a driving event starts by hour 14.
\<close>

definition event_hours_guarded :: "event \<Rightarrow> bool" where
  "event_hours_guarded e \<longleftrightarrow>
     0 \<le> ev_start e \<and> ev_start e \<le> ev_end e \<and>
     (case ev_type e of
        Driving \<Rightarrow> ev_start e \<le> 14
      | On_duty \<Rightarrow> True
      | Stop_event ty \<Rightarrow> ev_end e \<le> 24)"

text \<open>
  All the bounds that hold of an event: beyond the guarded ones, a driving event ends
  by hour 25 and a mandatory rest by hour 25.5.
\<close>

definition event_in_bounds :: "event \<Rightarrow> bool" where
  "event_in_bounds e \<longleftrightarrow>
     0 \<le> ev_start e \<and> ev_start e \<le> ev_end e \<and>
     (case ev_type e of
        Driving \<Rightarrow> ev_start e \<le> 14 \<and> ev_end e \<le> 25
      | On_duty \<Rightarrow> ev_end e \<le> 51 / 2
      | Stop_event ty \<Rightarrow> ev_end e \<le> 24)"

text \<open>The invariant of the simulator's state behind these bounds.\<close>

definition hours_inv :: "sim_state \<Rightarrow> bool" where
  "hours_inv st \<longleftrightarrow>
     0 \<le> current_hour st \<and> 0 \<le> daily_drive_hours st \<and>
     (\<forall>l \<in> set (st_logs st). \<forall>e \<in> set (events l). event_in_bounds e)"

definition is_fuel :: "stop \<Rightarrow> bool" where
  "is_fuel s \<longleftrightarrow> stop_type s = Fuel"

text \<open>
  The miles a record drives, read off the metadata of its driving events, and the
  chain of odometer readings: each record reads the previous reading plus its miles.
\<close>

definition event_miles :: "event \<Rightarrow> rat" where
  "event_miles e =
     (if ev_type e = Driving
      then (case ev_metadata e of Drive_metadata a b miles \<Rightarrow> miles | Stop_metadata md \<Rightarrow> 0
            | No_metadata \<Rightarrow> 0)
      else 0)"

definition record_miles :: "logday \<Rightarrow> rat" where
  "record_miles l = sum_list (map event_miles (events l))"

fun odometer_chain :: "rat \<Rightarrow> logday list \<Rightarrow> bool" where
  "odometer_chain reading [] = True"
| "odometer_chain reading (l # ls) =
     (odometer l = reading + record_miles l \<and> odometer_chain (odometer l) ls)"

text \<open>Multiples of 0.01, which \<open>round2\<close> leaves alone, and the invariant built on them.\<close>

definition hundredths :: "rat \<Rightarrow> bool" where
  "hundredths x \<longleftrightarrow> x * 100 \<in> \<int>"

definition odometer_inv :: "sim_state \<Rightarrow> bool" where
  "odometer_inv st \<longleftrightarrow>
     hundredths (st_odometer st) \<and> hundredths (daily_drive_hours st) \<and>
     odometer_chain 0 (st_logs st) \<and>
     last (0 # map odometer (st_logs st)) = st_odometer st \<and>
     list_all (\<lambda>l. 0 \<le> record_miles l) (st_logs st)"

text \<open>
  The logs, and a state, with the date of record \<open>k\<close> moved on by the clock reading
  \<open>now k\<close>.
\<close>

definition stamp_dates :: "clock \<Rightarrow> logday list \<Rightarrow> logday list" where
  "stamp_dates now lgs = map (\<lambda>(k, l). l\<lparr>date := date l + now k\<rparr>) (enumerate 0 lgs)"

definition stamp_state :: "clock \<Rightarrow> sim_state \<Rightarrow> sim_state" where
  "stamp_state now st = st\<lparr>st_logs := stamp_dates now (st_logs st)\<rparr>"

text \<open>
  The index as the specification words it, \<open>clamp(round(progress \<times> len), 1, len - 2)\<close>,
  for comparison with \<open>interp_index\<close>.
\<close>

definition spec_interp_index :: "rat \<Rightarrow> nat \<Rightarrow> int" where
  "spec_interp_index progress n = max 1 (min (round (progress * of_nat n)) (int n - 2))"

section \<open>Example inputs\<close>

text \<open>Arithmetic without rounding error, and \<open>round2\<close> for \<^verbatim>\<open>round(x, 2)\<close>.\<close>

definition exact_ops :: float_ops where
  "exact_ops = \<lparr>fl_add = (+), fl_sub = (-), fl_mul = (*), fl_div = (/), fl_round2 = round2\<rparr>"

definition demo_trip :: trip where
  "demo_trip = \<lparr>current_location = ''Dallas'', pickup_location = ''Austin'',
                 dropoff_location = ''Denver'', current_cycle_used = 0\<rparr>"

text \<open>Every address geocodes; no point of interest is ever found.\<close>

definition demo_providers :: providers where
  "demo_providers = \<lparr>geocode_location = (\<lambda>a. Some (30, -97)),
                      find_poi_near_location = (\<lambda>c k r. Inr None),
                      arith = exact_ops\<rparr>"

text \<open>Every address geocodes; the reverse geocoder of the search raises.\<close>

definition failing_poi_providers :: providers where
  "failing_poi_providers = \<lparr>geocode_location = (\<lambda>a. Some (30, -97)),
                             find_poi_near_location = (\<lambda>c k r. Inl ProviderError),
                             arith = exact_ops\<rparr>"

text \<open>A run that stays within the calendar day \<open>d\<close>.\<close>

definition fixed_clock :: "int \<Rightarrow> clock" where
  "fixed_clock d k = d"

definition no_great_circle :: "coord \<Rightarrow> coord \<Rightarrow> rat" where
  "no_great_circle a b = 0"

definition two_point_route :: "coord list" where
  "two_point_route = [(10, 20), (30, 40)]"

definition three_point_route :: "coord list" where
  "three_point_route = [(10, 20), (30, 40), (50, 60)]"

definition ten_point_route :: "coord list" where
  "ten_point_route =
     [(0, 0), (1, 10), (2, 20), (3, 30), (4, 40), (5, 50), (6, 60), (7, 70), (8, 80), (9, 90)]"

definition five_point_route :: "coord list" where
  "five_point_route = [(0, 0), (1, 1), (2, 2), (3, 3), (4, 4)]"

definition demo_stops :: "stop list" where
  "demo_stops = calculate_stops_with_fallback demo_providers demo_trip 1200 (Some five_point_route)"

text \<open>The log of the two fallback stops over 1100 miles.\<close>

definition fallback_logs :: "logday list" where
  "fallback_logs =
     (case generate_eld_logs_with_stops (fixed_clock 0) no_great_circle demo_trip
             (create_basic_trip_stops demo_trip) 1100 of
        Inr lgs \<Rightarrow> lgs
      | Inl e \<Rightarrow> [])"

text \<open>Three planned stops with coordinates, 595 great-circle miles apart.\<close>

definition three_stops :: "stop list" where
  "three_stops =
     [pickup_stop demo_trip (30, -97) 1, fuel_stop 1 1000 (35, -100) None 2,
      dropoff_stop demo_trip (39, -104) 3]"

definition great_circle_595 :: "coord \<Rightarrow> coord \<Rightarrow> rat" where
  "great_circle_595 a b = 595"



section \<open>The cycle precondition\<close>

text \<open>
  C5. When \<open>current_cycle_used\<close> is 70 or more, so that the remaining cycle is zero or
  negative, the simulator raises and returns no log record, whatever the stops and the
  total distance are.
\<close>

theorem cycle_exceeded_no_logs:
  "70 \<le> current_cycle_used t \<Longrightarrow>
   generate_eld_logs_with_stops now great_circle t stops total_miles = Inl CycleExceeded"
  by (simp add: generate_eld_logs_with_stops_def MAX_CYCLE_HOURS_def)

theorem cycle_exceeded_no_logs_witness:
  "70 \<le> current_cycle_used (demo_trip\<lparr>current_cycle_used := 70\<rparr>) \<and>
   generate_eld_logs_with_stops (fixed_clock 0) no_great_circle (demo_trip\<lparr>current_cycle_used := 70\<rparr>)
     (create_basic_trip_stops demo_trip) 500 = Inl CycleExceeded"
  using cycle_exceeded_no_logs [of "demo_trip\<lparr>current_cycle_used := 70\<rparr>" "fixed_clock 0"
      no_great_circle
      "create_basic_trip_stops demo_trip" 500]
  by simp

section \<open>The daily driving cap\<close>

text \<open>
  C1. No day should record more than 11 hours of driving. On the two fallback stops
  (no coordinates) and 1100 miles the simulator drives from hour 1 to 12, rests, and,
  the counter being reset by the rest, drives again from 12.5 to 23.5 on the same day:
  day 1 records 22 hours of driving.
\<close>

theorem day_one_drives_22_hours:
  "map_sum id (day_driving_hours 1)
     (generate_eld_logs_with_stops (fixed_clock 0) no_great_circle demo_trip
        (create_basic_trip_stops demo_trip) 1100) = Inr 22"
  by code_simp

section \<open>The fallback of the planner\<close>

text \<open>
  C2. An exception in the planner should give the two-stop itinerary with both stops
  flagged \<open>is_fallback\<close>. With a one-point route, or with a search whose reverse geocoder
  raises, the \<^verbatim>\<open>try\<close> block fails, the handler of \<open>calculate_stop_points\<close> answers, and
  its pickup and dropoff stops carry no \<open>is_fallback\<close> key.
\<close>

theorem handler_stops_not_flagged:
  "calculate_stop_points_try demo_providers demo_trip 1200 (Some [(0, 0)]) = Inl InsufficientPoints \<and>
   map (\<lambda>s. (stop_type s, is_fallback (metadata s)))
     (calculate_stops_with_fallback demo_providers demo_trip 1200 (Some [(0, 0)]))
     = [(Pickup, None), (Dropoff, None)] \<and>
   calculate_stop_points_try failing_poi_providers demo_trip 1200
     (Some three_point_route) = Inl ProviderError \<and>
   map (\<lambda>s. (stop_type s, is_fallback (metadata s)))
     (calculate_stops_with_fallback failing_poi_providers demo_trip 1200
        (Some three_point_route))
     = [(Pickup, None), (Dropoff, None)]"
  by code_simp

section \<open>The geometry interpolator\<close>

text \<open>
  C4, as stated, fails: on a two-point route the index is 1, the last point of the
  route, and the index truncates where the specification rounds.
\<close>

theorem interpolate_returns_endpoint:
  "interpolate demo_providers two_point_route (1 / 2)
     = Inr (prod.swap (last two_point_route)) \<and>
   interp_index demo_providers (26 / 100) 10 \<noteq> spec_interp_index (26 / 100) 10"
  by code_simp

text \<open>
  C4, amended. For a route of at least two points, whatever the progress and the rounding
  of the float product are, the index is \<open>max 1 (min (int p) (len - 2))\<close> with \<open>p\<close> the
  float product \<open>progress \<times> len\<close> truncated, not rounded, and the point at that index
  is returned with its components swapped; the index is interior, between 1 and
  \<open>len - 2\<close>, when the route has three points or more, and the last point is returned
  when it has two.
\<close>

theorem interpolate_index_bounds:
  assumes "2 \<le> length route_coords"
  shows "interp_index prov progress (length route_coords)
           = max 1 (min (py_int (fl_mul (arith prov) progress (of_nat (length route_coords))))
                        (int (length route_coords) - 2)) \<and>
         interpolate prov route_coords progress
           = Inr (prod.swap (route_coords ! nat (interp_index prov progress (length route_coords)))) \<and>
         (3 \<le> length route_coords \<longrightarrow>
            1 \<le> interp_index prov progress (length route_coords) \<and>
            interp_index prov progress (length route_coords) \<le> int (length route_coords) - 2) \<and>
         (length route_coords = 2 \<longrightarrow>
            interpolate prov route_coords progress = Inr (prod.swap (last route_coords)))"
proof -
  let ?n = "length route_coords"
  let ?i = "interp_index prov progress ?n"
  have idx: "?i = max 1 (min (py_int (fl_mul (arith prov) progress (of_nat ?n))) (int ?n - 2))"
    by (simp add: interp_index_def)
  have lo: "1 \<le> ?i" by (simp add: interp_index_def)
  have hi: "?i < int ?n" using assms by (simp add: interp_index_def)
  have ip: "interpolate prov route_coords progress = Inr (prod.swap (route_coords ! nat ?i))"
    using lo hi by (simp add: interpolate_def route_at_def Let_def split: prod.splits)
  have interior: "3 \<le> ?n \<longrightarrow> 1 \<le> ?i \<and> ?i \<le> int ?n - 2"
    by (auto simp: interp_index_def)
  have two: "?n = 2 \<longrightarrow> interpolate prov route_coords progress
               = Inr (prod.swap (last route_coords))"
  proof
    assume n2: "?n = 2"
    then have "?i = 1" by (simp add: interp_index_def)
    moreover from n2 have "last route_coords = route_coords ! 1"
      by (cases route_coords) (auto simp: last_conv_nth)
    ultimately show "interpolate prov route_coords progress
                       = Inr (prod.swap (last route_coords))"
      using ip by simp
  qed
  from idx ip interior two show ?thesis by blast
qed

theorem interpolate_index_bounds_witness:
  "2 \<le> length ten_point_route \<and>
   interp_index demo_providers (26 / 100) (length ten_point_route) = 2 \<and>
   spec_interp_index (26 / 100) (length ten_point_route) = 3 \<and>
   interpolate demo_providers ten_point_route (26 / 100) = Inr (20, 2)"
proof -
  have a: "2 \<le> length ten_point_route" by (simp add: ten_point_route_def)
  have i: "interp_index demo_providers (26 / 100) (length ten_point_route) = 2"
    by code_simp
  have sp: "spec_interp_index (26 / 100) (length ten_point_route) = 3"
    by code_simp
  have r: "ten_point_route ! 2 = (2, 20)" by (simp add: ten_point_route_def)
  from interpolate_index_bounds [OF a, of demo_providers "26 / 100"] a i sp r
  show ?thesis by simp
qed

section \<open>The planned stop list\<close>

lemma py_int_of_int: "py_int (of_int k) = k"
  by (simp add: py_int_def)

lemma fuel_loop_appends:
  "fuel_loop prov total_miles route_coords is (stops, sq) = Inr (stops', sq') \<Longrightarrow>
   \<exists>new. stops' = stops @ new \<and> map sequence new = [sq..sq' - 1] \<and> sq \<le> sq' \<and>
         (\<forall>s \<in> set new. stop_type s = Fuel)"
proof (induction "is" arbitrary: stops sq)
  case Nil
  then show ?case by simp
next
  case (Cons i "is")
  show ?case
  proof (cases "total_miles * (95 / 100) \<le> of_int (i * FUEL_INTERVAL)")
    case True
    with Cons.prems show ?thesis by simp
  next
    case False
    with Cons.prems obtain progress coords found where
      rec: "fuel_loop prov total_miles route_coords is
              (stops @ [fuel_stop i (i * FUEL_INTERVAL) coords found sq], sq + 1) = Inr (stops', sq')"
      by (auto simp: Let_def split: sum.splits)
    from Cons.IH [OF rec] obtain new where
      new: "stops' = (stops @ [fuel_stop i (i * FUEL_INTERVAL) coords found sq]) @ new"
        "map sequence new = [sq + 1..sq' - 1]" "sq + 1 \<le> sq'"
        "\<forall>s \<in> set new. stop_type s = Fuel"
      by blast
    let ?new = "fuel_stop i (i * FUEL_INTERVAL) coords found sq # new"
    have "stops' = stops @ ?new" using new(1) by simp
    moreover have "map sequence ?new = [sq..sq' - 1]"
      using new(2,3) by (simp add: fuel_stop_def upto_rec1 [of sq "sq' - 1"])
    moreover have "sq \<le> sq'" using new(3) by simp
    moreover have "\<forall>s \<in> set ?new. stop_type s = Fuel"
      using new(4) by (simp add: fuel_stop_def)
    ultimately show ?thesis by blast
  qed
qed

lemma rest_loop_appends:
  "rest_loop prov total_miles route_coords is (stops, sq) = Inr (stops', sq') \<Longrightarrow>
   \<exists>new. stops' = stops @ new \<and> map sequence new = [sq..sq' - 1] \<and> sq \<le> sq' \<and>
         (\<forall>s \<in> set new. stop_type s = Rest)"
proof (induction "is" arbitrary: stops sq)
  case Nil
  then show ?case by simp
next
  case (Cons i "is")
  show ?case
  proof (cases "total_miles * (9 / 10) \<le> of_int (i * REST_BREAK_INTERVAL) * AVERAGE_SPEED")
    case True
    with Cons.prems show ?thesis by simp
  next
    case False
    with Cons.prems obtain progress coords found where
      rec: "rest_loop prov total_miles route_coords is
              (stops @ [rest_stop i coords found sq], sq + 1) = Inr (stops', sq')"
      by (auto simp: Let_def split: sum.splits)
    from Cons.IH [OF rec] obtain new where
      new: "stops' = (stops @ [rest_stop i coords found sq]) @ new"
        "map sequence new = [sq + 1..sq' - 1]" "sq + 1 \<le> sq'"
        "\<forall>s \<in> set new. stop_type s = Rest"
      by blast
    let ?new = "rest_stop i coords found sq # new"
    have "stops' = stops @ ?new" using new(1) by simp
    moreover have "map sequence ?new = [sq..sq' - 1]"
      using new(2,3) by (simp add: rest_stop_def upto_rec1 [of sq "sq' - 1"])
    moreover have "sq \<le> sq'" using new(3) by simp
    moreover have "\<forall>s \<in> set ?new. stop_type s = Rest"
      using new(4) by (simp add: rest_stop_def)
    ultimately show ?thesis by blast
  qed
qed

lemma fuel_loop_count:
  "sorted is \<Longrightarrow>
   fuel_loop prov total_miles route_coords is (stops, sq) = Inr (stops', sq') \<Longrightarrow>
   sq' = sq + int (length (filter (\<lambda>i. \<not> total_miles * (95 / 100) \<le> of_int (i * FUEL_INTERVAL)) is))"
proof (induction "is" arbitrary: stops sq)
  case Nil
  then show ?case by simp
next
  case (Cons i "is")
  show ?case
  proof (cases "total_miles * (95 / 100) \<le> of_int (i * FUEL_INTERVAL)")
    case True
    have "\<forall>j \<in> set is. total_miles * (95 / 100) \<le> of_int (j * FUEL_INTERVAL)"
    proof
      fix j assume "j \<in> set is"
      with Cons.prems(1) have "i \<le> j" by simp
      then have "(of_int (i * FUEL_INTERVAL) :: rat) \<le> of_int (j * FUEL_INTERVAL)"
        by (simp add: FUEL_INTERVAL_def)
      with True show "total_miles * (95 / 100) \<le> of_int (j * FUEL_INTERVAL)" by linarith
    qed
    then have "filter (\<lambda>i. \<not> total_miles * (95 / 100) \<le> of_int (i * FUEL_INTERVAL)) is = []"
      by (simp add: filter_empty_conv)
    with True Cons.prems(2) show ?thesis by simp
  next
    case False
    with Cons.prems(2) obtain progress coords found where
      rec: "fuel_loop prov total_miles route_coords is
              (stops @ [fuel_stop i (i * FUEL_INTERVAL) coords found sq], sq + 1) = Inr (stops', sq')"
      by (auto simp: Let_def split: sum.splits)
    from Cons.prems(1) have "sorted is" by simp
    from Cons.IH [OF this rec] False show ?thesis by simp
  qed
qed

lemma upto_append: "a \<le> b \<Longrightarrow> b \<le> c + 1 \<Longrightarrow> [a..b - 1] @ [b..c] = [a..c]"
proof (cases "b \<le> c")
  case True
  assume "a \<le> b"
  from upto_split1 [OF this True] show ?thesis by simp
next
  case False
  assume "b \<le> c + 1"
  with False have "b = c + 1" by simp
  then show ?thesis by simp
qed

lemma try_structure:
  assumes "calculate_stop_points_try prov t total_miles route_geometry = Inr stops"
  shows "\<exists>route_coords pickup_coords dropoff_coords fuels rests sqf sq.
           route_geometry = Some route_coords \<and>
           fuel_loop prov total_miles route_coords
               (py_range 1 (\<lfloor>total_miles / of_int FUEL_INTERVAL\<rfloor> + 1))
               ([pickup_stop t pickup_coords 1], 2)
             = Inr (pickup_stop t pickup_coords 1 # fuels, sqf) \<and>
           stops = pickup_stop t pickup_coords 1 # fuels @ rests @ [dropoff_stop t dropoff_coords sq] \<and>
           map sequence stops = [1..sq] \<and> 2 \<le> sq \<and>
           (\<forall>s \<in> set fuels. stop_type s = Fuel) \<and> (\<forall>s \<in> set rests. stop_type s = Rest)"
proof -
  from assms obtain route_coords where rg: "route_geometry = Some route_coords"
    by (auto simp: calculate_stop_points_try_def split: option.splits)
  from assms rg obtain pickup_coords acc stops2 sq dropoff_coords where
    fl: "fuel_loop prov total_miles route_coords
           (py_range 1 (\<lfloor>total_miles / of_int FUEL_INTERVAL\<rfloor> + 1))
           ([pickup_stop t pickup_coords 1], 2) = Inr acc" and
    rl: "rest_loop prov total_miles route_coords
           (py_range 1 (\<lfloor>total_miles / AVERAGE_SPEED / of_int REST_BREAK_INTERVAL\<rfloor> + 1))
           acc = Inr (stops2, sq)" and
    res: "stops = sort_key sequence (stops2 @ [dropoff_stop t dropoff_coords sq])"
    by (auto simp: calculate_stop_points_try_def Let_def py_int_of_int
        split: option.splits if_splits sum.splits)
  obtain stops1 sqf where acc: "acc = (stops1, sqf)" by (cases acc)
  from fuel_loop_appends [OF fl [unfolded acc]] obtain fuels where
    f: "stops1 = [pickup_stop t pickup_coords 1] @ fuels" "map sequence fuels = [2..sqf - 1]"
       "2 \<le> sqf" "\<forall>s \<in> set fuels. stop_type s = Fuel"
    by blast
  from rest_loop_appends [OF rl [unfolded acc]] obtain rests where
    r: "stops2 = stops1 @ rests" "map sequence rests = [sqf..sq - 1]"
       "sqf \<le> sq" "\<forall>s \<in> set rests. stop_type s = Rest"
    by blast
  let ?all = "pickup_stop t pickup_coords 1 # fuels @ rests @ [dropoff_stop t dropoff_coords sq]"
  have u1: "[2..sqf - 1] @ [sqf..sq - 1] = [2..sq - 1]"
    using f(3) r(3) by (intro upto_append) simp_all
  have u2: "[2..sq - 1] @ [sq] = [2..sq]"
    using f(3) r(3) upto_append [of 2 sq sq] by simp
  have sq2: "2 \<le> sq" using f(3) r(3) by simp
  have "map sequence ?all = 1 # ([2..sqf - 1] @ [sqf..sq - 1]) @ [sq]"
    by (simp add: f(2) r(2) pickup_stop_def dropoff_stop_def)
  also have "\<dots> = 1 # [2..sq]" by (simp only: u1 u2)
  also have "\<dots> = [1..sq]" using sq2 upto_rec1 [of 1 sq] by simp
  finally have ms: "map sequence ?all = [1..sq]" .
  then have "sorted (map sequence ?all)" by simp
  then have "sort_key sequence ?all = ?all" by (rule sort_key_id_if_sorted)
  with res f(1) r(1) have st: "stops = ?all" by simp
  from fl acc f(1) have fl': "fuel_loop prov total_miles route_coords
               (py_range 1 (\<lfloor>total_miles / of_int FUEL_INTERVAL\<rfloor> + 1))
               ([pickup_stop t pickup_coords 1], 2)
             = Inr (pickup_stop t pickup_coords 1 # fuels, sqf)" by simp
  from rg fl' st ms sq2 f(4) r(4) show ?thesis by blast
qed

lemma basic_stops_invariant: "planner_invariant (create_basic_trip_stops t)"
  by (simp add: planner_invariant_def create_basic_trip_stops_def)

lemma except_invariant:
  "calculate_stop_points_except prov t = Inr stops \<Longrightarrow> planner_invariant stops"
  by (auto simp: planner_invariant_def calculate_stop_points_except_def split: option.splits)

lemma try_invariant:
  assumes "calculate_stop_points_try prov t total_miles route_geometry = Inr stops"
  shows "planner_invariant stops"
proof -
  from try_structure [OF assms] obtain pickup_coords dropoff_coords fuels rests sq where
    st: "stops = pickup_stop t pickup_coords 1 # fuels @ rests @ [dropoff_stop t dropoff_coords sq]"
    and ms: "map sequence stops = [1..sq]"
    by blast
  have "stops \<noteq> []" using st by simp
  moreover have "sequence (hd stops) = 1" using st by (simp add: pickup_stop_def)
  moreover have "sorted_wrt (<) (map sequence stops)" unfolding ms by simp
  moreover have "distinct (map sequence stops)" unfolding ms by simp
  moreover have "stop_type (hd stops) = Pickup" using st by (simp add: pickup_stop_def)
  moreover have "stop_type (last stops) = Dropoff" using st by (simp add: dropoff_stop_def)
  ultimately show ?thesis by (simp add: planner_invariant_def)
qed

lemma calculate_stop_points_invariant:
  "calculate_stop_points prov t total_miles route_geometry = Inr stops \<Longrightarrow>
   planner_invariant stops"
  by (auto simp: calculate_stop_points_def split: sum.splits
      intro: try_invariant except_invariant)

text \<open>
  C6. Whatever the trip, the distance, the route and the providers' answers are, the
  list the planner hands over, through its own handler or the caller's fallback, is
  not empty, numbers its stops from 1 in strictly ascending order without repetition,
  starts with a pickup and ends with a dropoff; so does every list that
  \<open>calculate_stop_points\<close> itself returns.
\<close>

theorem planner_output_well_formed:
  "planner_invariant (calculate_stops_with_fallback prov t total_miles route_geometry) \<and>
   (calculate_stop_points prov t total_miles route_geometry = Inr stops \<longrightarrow>
      planner_invariant stops)"
  by (auto simp: calculate_stops_with_fallback_def split: sum.splits
      intro: basic_stops_invariant calculate_stop_points_invariant)

theorem planner_output_well_formed_witness:
  "planner_invariant demo_stops \<and>
   calculate_stop_points demo_providers demo_trip 1200 (Some five_point_route) = Inr demo_stops"
proof -
  have e: "calculate_stop_points demo_providers demo_trip 1200 (Some five_point_route)
             = Inr demo_stops"
    by code_simp
  from planner_output_well_formed [of demo_providers demo_trip 1200 "Some five_point_route"
      demo_stops] e
  show ?thesis by simp
qed

section \<open>The number of fuel stops\<close>

lemma count_upto_filter:
  assumes "0 \<le> n"
  shows "int (length (filter (\<lambda>i. \<not> Q i) [1..n])) = n - int (card {i. 1 \<le> i \<and> i \<le> n \<and> Q i})"
proof -
  let ?A = "{i. 1 \<le> i \<and> i \<le> n \<and> \<not> Q i}" and ?B = "{i. 1 \<le> i \<and> i \<le> n \<and> Q i}"
  have fin: "finite ?A" "finite ?B"
    by (rule finite_subset [of _ "{1..n}"]; auto)+
  have "length (filter (\<lambda>i. \<not> Q i) [1..n]) = card ({i. \<not> Q i} \<inter> set [1..n])"
    by (rule distinct_length_filter) simp
  also have "{i. \<not> Q i} \<inter> set [1..n] = ?A" by auto
  finally have len: "length (filter (\<lambda>i. \<not> Q i) [1..n]) = card ?A" .
  have "?A \<union> ?B = {1..n}" "?A \<inter> ?B = {}" by auto
  with fin have "card ?A + card ?B = card {1..n}"
    by (metis card_Un_disjoint)
  also have "\<dots> = nat n" by simp
  finally show ?thesis using assms len by linarith
qed

text \<open>
  C7. When the \<^verbatim>\<open>try\<close> block of the planner succeeds on a distance that is not
  negative, the fuel stops of its result number \<open>\<lfloor>total_miles / 1000\<rfloor>\<close> less the count
  of the indices \<open>i\<close> from 1 to \<open>\<lfloor>total_miles / 1000\<rfloor>\<close> with
  \<open>i \<times> 1000 \<ge> 0.95 \<times> total_miles\<close>.
\<close>

theorem fuel_stop_count:
  assumes "0 \<le> total_miles"
    and "calculate_stop_points_try prov t total_miles route_geometry = Inr stops"
  shows "int (length (filter is_fuel stops))
           = \<lfloor>total_miles / 1000\<rfloor>
             - int (card {i. 1 \<le> i \<and> i \<le> \<lfloor>total_miles / 1000\<rfloor> \<and>
                             95 / 100 * total_miles \<le> of_int (i * 1000)})"
proof -
  let ?n = "\<lfloor>total_miles / 1000\<rfloor>"
  from try_structure [OF assms(2)]
  obtain route_coords pickup_coords dropoff_coords fuels rests sqf sq where
    fl: "fuel_loop prov total_miles route_coords
           (py_range 1 (\<lfloor>total_miles / of_int FUEL_INTERVAL\<rfloor> + 1))
           ([pickup_stop t pickup_coords 1], 2)
         = Inr (pickup_stop t pickup_coords 1 # fuels, sqf)"
    and st: "stops = pickup_stop t pickup_coords 1 # fuels @ rests @ [dropoff_stop t dropoff_coords sq]"
    and ty: "\<forall>s \<in> set fuels. stop_type s = Fuel" "\<forall>s \<in> set rests. stop_type s = Rest"
    by blast
  have rng: "py_range 1 (\<lfloor>total_miles / of_int FUEL_INTERVAL\<rfloor> + 1) = [1..?n]"
    by (simp add: py_range_def FUEL_INTERVAL_def)
  have n0: "0 \<le> ?n" using assms(1) by simp
  have ff: "filter is_fuel fuels = fuels" using ty(1) by (simp add: is_fuel_def)
  have fr: "filter is_fuel rests = []" using ty(2) by (simp add: is_fuel_def filter_empty_conv)
  have cnt: "length (filter is_fuel stops) = length fuels"
    by (simp add: st ff fr is_fuel_def pickup_stop_def dropoff_stop_def)
  from fuel_loop_appends [OF fl] obtain new where
    "pickup_stop t pickup_coords 1 # fuels = [pickup_stop t pickup_coords 1] @ new"
    "map sequence new = [2..sqf - 1]" "2 \<le> sqf"
    by blast
  then have "map sequence fuels = [2..sqf - 1]" by simp
  then have "length fuels = length [2..sqf - 1]" by (metis length_map)
  with \<open>2 \<le> sqf\<close> have lf: "int (length fuels) = sqf - 2" by simp
  from fuel_loop_count [OF _ fl [unfolded rng]]
  have "sqf = 2 + int (length (filter
            (\<lambda>i. \<not> total_miles * (95 / 100) \<le> of_int (i * FUEL_INTERVAL)) [1..?n]))"
    by simp
  also have "int (length (filter
            (\<lambda>i. \<not> total_miles * (95 / 100) \<le> of_int (i * FUEL_INTERVAL)) [1..?n]))
          = ?n - int (card {i. 1 \<le> i \<and> i \<le> ?n \<and>
                              total_miles * (95 / 100) \<le> of_int (i * FUEL_INTERVAL)})"
    by (rule count_upto_filter [OF n0])
  finally have "sqf - 2 = ?n - int (card {i. 1 \<le> i \<and> i \<le> ?n \<and>
                              total_miles * (95 / 100) \<le> of_int (i * FUEL_INTERVAL)})"
    by simp
  with cnt lf show ?thesis by (simp add: FUEL_INTERVAL_def mult.commute)
qed

theorem fuel_stop_count_witness:
  "(0::rat) \<le> 1200 \<and>
   calculate_stop_points_try demo_providers demo_trip 1200 (Some five_point_route)
     = Inr demo_stops \<and>
   int (length (filter is_fuel demo_stops))
     = \<lfloor>(1200::rat) / 1000\<rfloor>
       - int (card {i. 1 \<le> i \<and> i \<le> \<lfloor>(1200::rat) / 1000\<rfloor> \<and>
                       95 / 100 * (1200::rat) \<le> of_int (i * 1000)}) \<and>
   length (filter is_fuel demo_stops) = 1"
proof -
  have a: "(0::rat) \<le> 1200" by simp
  have e: "calculate_stop_points_try demo_providers demo_trip 1200 (Some five_point_route)
             = Inr demo_stops"
    by code_simp
  have n: "length (filter is_fuel demo_stops) = 1"
    by code_simp
  from fuel_stop_count [OF a e] a e n show ?thesis by simp
qed

section \<open>Rounding to hundredths\<close>

lemma round_half_even_bounds: "\<lfloor>y\<rfloor> \<le> round_half_even y \<and> round_half_even y \<le> \<lfloor>y\<rfloor> + 1"
  by (simp add: round_half_even_def Let_def)

lemma round_half_even_mono:
  assumes "x \<le> y"
  shows "round_half_even x \<le> round_half_even y"
proof (cases "\<lfloor>x\<rfloor> = \<lfloor>y\<rfloor>")
  case True
  with assms have "x - of_int \<lfloor>x\<rfloor> \<le> y - of_int \<lfloor>y\<rfloor>" by simp
  with True show ?thesis by (auto simp: round_half_even_def Let_def)
next
  case False
  with assms have "\<lfloor>x\<rfloor> + 1 \<le> \<lfloor>y\<rfloor>" using floor_mono [OF assms] by linarith
  with round_half_even_bounds [of x] round_half_even_bounds [of y] show ?thesis by linarith
qed

lemma round_half_even_of_int: "round_half_even (of_int k) = k"
  by (simp add: round_half_even_def Let_def)

lemma round2_mono: "x \<le> y \<Longrightarrow> round2 x \<le> round2 y"
  by (simp add: round2_def round_half_even_mono divide_right_mono)

lemma round2_exact: "x * 100 \<in> \<int> \<Longrightarrow> round2 x = x"
  by (auto simp: round2_def round_half_even_of_int elim!: Ints_cases)

lemma round2_numeral [simp]: "round2 0 = 0" "round2 (numeral n) = numeral n"
  by (simp_all add: round2_exact)

lemma round2_half: "round2 (51 / 2) = 51 / 2"
  by (simp add: round2_exact)

lemma round2_nonneg: "0 \<le> x \<Longrightarrow> 0 \<le> round2 x"
  using round2_mono [of 0 x] by simp

lemma round_half_even_add_even: "even k \<Longrightarrow> round_half_even (y + of_int k) = round_half_even y + k"
  by (simp add: round_half_even_def Let_def)

lemma round2_add_half: "round2 (x + 1 / 2) = round2 x + 1 / 2"
proof -
  have "(x + 1 / 2) * 100 = x * 100 + of_int 50" by (simp add: algebra_simps)
  then have "round_half_even ((x + 1 / 2) * 100) = round_half_even (x * 100) + 50"
    using round_half_even_add_even [of 50 "x * 100"] by simp
  then show ?thesis by (simp add: round2_def add_divide_distrib)
qed

section \<open>The hours of the events\<close>

lemma start_new_day_hours: "hours_inv st \<Longrightarrow> hours_inv (start_new_day now st)"
  by (auto simp: hours_inv_def start_new_day_def)

lemma record_driving_hours:
  assumes "hours_inv st" "current_hour st < 14" "0 \<le> m" "m \<le> 11"
  shows "hours_inv (record_driving now prev stop m st)"
    and "current_hour (record_driving now prev stop m st) \<le> 25"
    and "st_logs (record_driving now prev stop m st) \<noteq> []"
proof -
  from assms have c: "0 \<le> current_hour st" and d: "0 \<le> daily_drive_hours st"
    by (simp_all add: hours_inv_def)
  have "round2 (current_hour st) \<le> round2 14" using assms(2) by (intro round2_mono) simp
  then have s14: "round2 (current_hour st) \<le> 14" by simp
  have "round2 (current_hour st + m) \<le> round2 25" using assms(2,4) by (intro round2_mono) simp
  then have e25: "round2 (current_hour st + m) \<le> 25" by simp
  have se: "round2 (current_hour st) \<le> round2 (current_hour st + m)"
    using assms(3) by (intro round2_mono) simp
  have s0: "0 \<le> round2 (current_hour st)" using c by (rule round2_nonneg)
  show "hours_inv (record_driving now prev stop m st)"
    using assms(1,3) c d s14 e25 se s0
    by (auto simp: hours_inv_def record_driving_def Let_def event_in_bounds_def)
  show "current_hour (record_driving now prev stop m st) \<le> 25"
    using assms(2,4) by (simp add: record_driving_def Let_def)
  show "st_logs (record_driving now prev stop m st) \<noteq> []"
    by (simp add: record_driving_def Let_def)
qed

lemma insert_rest_break_hours:
  assumes "hours_inv st" "current_hour st \<le> 25" "st_logs st \<noteq> []"
  shows "hours_inv (insert_rest_break st)"
proof -
  from assms(1) have c: "0 \<le> current_hour st" by (simp add: hours_inv_def)
  have "round2 (current_hour st + 1 / 2) \<le> round2 (51 / 2)"
    using assms(2) by (intro round2_mono) simp
  then have e: "round2 (current_hour st + 1 / 2) \<le> 51 / 2" by (simp only: round2_half)
  have se: "round2 (current_hour st) \<le> round2 (current_hour st + 1 / 2)"
    by (intro round2_mono) simp
  have s0: "0 \<le> round2 (current_hour st)" using c by (rule round2_nonneg)
  have rest: "event_in_bounds \<lparr>ev_type = On_duty, ev_start = round2 (current_hour st),
                ev_end = round2 (current_hour st + 1 / 2),
                ev_location = ''Mandatory 30-minute rest'', ev_metadata = No_metadata\<rparr>"
    using e se s0 by (simp add: event_in_bounds_def)
  have old: "\<forall>l \<in> set (st_logs st). \<forall>e \<in> set (events l). event_in_bounds e"
    using assms(1) by (simp add: hours_inv_def)
  have lst: "last (st_logs st) \<in> set (st_logs st)" using assms(3) by simp
  have "\<forall>l \<in> set (st_logs (insert_rest_break st)). \<forall>e \<in> set (events l). event_in_bounds e"
    using old lst rest by (auto simp: insert_rest_break_def dest: in_set_butlastD)
  with assms(1) c show ?thesis by (simp add: hours_inv_def insert_rest_break_def)
qed

lemma drive_chunk_hours:
  assumes "hours_inv st" "0 < drive_hours"
  shows "hours_inv (fst (drive_chunk now prev stop st drive_hours))"
proof -
  define st1 where "st1 = (if 11 \<le> daily_drive_hours st \<or> 14 \<le> current_hour st
                           then start_new_day now st else st)"
  define m where "m = min (11 - daily_drive_hours st1) drive_hours"
  define st2 where "st2 = record_driving now prev stop m st1"
  have i1: "hours_inv st1" using assms(1) by (simp add: st1_def start_new_day_hours)
  have c1: "current_hour st1 < 14" and d1: "daily_drive_hours st1 < 11"
    by (auto simp: st1_def start_new_day_def)
  from i1 have d0: "0 \<le> daily_drive_hours st1" by (simp add: hours_inv_def)
  have m0: "0 \<le> m" and m11: "m \<le> 11" using d1 d0 assms(2) by (auto simp: m_def)
  note r = record_driving_hours [OF i1 c1 m0 m11, of now prev stop, folded st2_def]
  have "hours_inv (if 8 \<le> daily_drive_hours st2 then insert_rest_break st2 else st2)"
    using r by (simp add: insert_rest_break_hours)
  moreover have "fst (drive_chunk now prev stop st drive_hours)
      = (if 8 \<le> daily_drive_hours st2 then insert_rest_break st2 else st2)"
    unfolding drive_chunk_def Let_def st2_def m_def st1_def fst_conv ..
  ultimately show ?thesis by simp
qed

lemma drive_loop_hours:
  "hours_inv st \<Longrightarrow> hours_inv (drive_loop now prev stop st drive_hours)"
proof (induction now prev stop st drive_hours rule: drive_loop.induct)
  case (1 now prev stop st drive_hours)
  show ?case
  proof (cases "0 < drive_hours")
    case True
    obtain st' dh' where dc: "drive_chunk now prev stop st drive_hours = (st', dh')"
      by (cases "drive_chunk now prev stop st drive_hours")
    from drive_chunk_hours [OF "1.prems" True, of now prev stop] dc
    have "hours_inv st'" by simp
    from "1.IH" [OF True dc [symmetric] this] True dc show ?thesis
      by (simp add: drive_loop.simps [of now prev stop st])
  next
    case False
    with "1.prems" show ?thesis by (simp add: drive_loop.simps [of now prev stop st])
  qed
qed

lemma add_stop_event_hours:
  assumes "hours_inv st" "0 \<le> duration_minutes stop" "duration_minutes stop \<le> 1440"
  shows "hours_inv (add_stop_event now stop st)"
proof -
  define dur :: rat where "dur = of_int (duration_minutes stop) / 60"
  have d0: "0 \<le> dur" and d24: "dur \<le> 24" using assms(2,3) by (simp_all add: dur_def)
  define c where "c = (if 24 < current_hour st + dur then 0 else current_hour st)"
  have c0: "0 \<le> c" and c24: "c + dur \<le> 24"
    using assms(1) d24 by (auto simp: c_def hours_inv_def)
  have "round2 (c + dur) \<le> round2 24" using c24 by (rule round2_mono)
  then have e: "round2 (c + dur) \<le> 24" by simp
  have se: "round2 c \<le> round2 (c + dur)" using d0 by (intro round2_mono) simp
  have s0: "0 \<le> round2 c" using c0 by (rule round2_nonneg)
  show ?thesis
    using assms(1) d0 c0 e se s0
    by (auto simp: hours_inv_def add_stop_event_def Let_def event_in_bounds_def
        dur_def [symmetric] c_def)
qed

lemma stops_loop_hours:
  "hours_inv st \<Longrightarrow> \<forall>s \<in> set stops. 0 \<le> duration_minutes s \<and> duration_minutes s \<le> 1440 \<Longrightarrow>
   hours_inv (stops_loop now great_circle total_miles n prev stops st)"
proof (induction stops arbitrary: prev st)
  case Nil
  then show ?case by simp
next
  case (Cons stop rest)
  define st1 where "st1 = (case prev of None \<Rightarrow> st
      | Some p \<Rightarrow> drive_loop now p stop st
                   (round2 (segment_miles great_circle total_miles n p stop / AVERAGE_SPEED)))"
  have "hours_inv st1"
    using Cons.prems(1) by (simp add: st1_def drive_loop_hours split: option.splits)
  then have "hours_inv (add_stop_event now stop st1)"
    using Cons.prems(2) by (intro add_stop_event_hours) simp_all
  from Cons.IH [OF this] Cons.prems(2) show ?case
    by (simp add: st1_def Let_def)
qed

lemma event_in_bounds_guarded: "event_in_bounds e \<Longrightarrow> event_hours_guarded e"
  by (auto simp: event_in_bounds_def event_hours_guarded_def split: event_type.splits)

text \<open>
  C3, as stated, fails: on the two fallback stops and 1050 miles the dropoff event runs
  from 23.0 to 24.0, which the test \<open>clock + duration > 24\<close> lets pass; and on three
  stops 595 miles apart an event ends after hour 24.
\<close>

theorem event_ends_at_or_after_24:
  "map_sum id (\<lambda>lgs. map (\<lambda>e. (ev_type e, ev_start e, ev_end e)) (events (last lgs)))
     (generate_eld_logs_with_stops (fixed_clock 0) no_great_circle demo_trip
        (create_basic_trip_stops demo_trip) 1050) = Inr [(Stop_event Dropoff, 23, 24)] \<and>
   map_sum id (list_all (\<lambda>l. list_all event_within_day (events l)))
     (generate_eld_logs_with_stops (fixed_clock 0) no_great_circle demo_trip
        (create_basic_trip_stops demo_trip) 1050) = Inr False \<and>
   map_sum id (list_ex (\<lambda>l. list_ex (\<lambda>e. 24 < ev_end e) (events l)))
     (generate_eld_logs_with_stops (fixed_clock 0) great_circle_595 demo_trip three_stops 1190) = Inr True"
  by code_simp

text \<open>
  C3, amended. For stops that last between 0 and 1440 minutes, every event of every
  returned record has \<open>0 \<le> start \<le> end\<close>; a stop event ends by hour 24, hour 24
  included, and a driving event starts by hour 14.
\<close>

theorem event_hours_bounded:
  assumes "\<forall>s \<in> set stops. 0 \<le> duration_minutes s \<and> duration_minutes s \<le> 1440"
    and "generate_eld_logs_with_stops now great_circle t stops total_miles = Inr lgs"
  shows "\<forall>l \<in> set lgs. \<forall>e \<in> set (events l). event_hours_guarded e"
proof -
  have "hours_inv initial_state" by (simp add: hours_inv_def initial_state_def)
  from stops_loop_hours [OF this assms(1)] assms(2) show ?thesis
    by (auto simp: generate_eld_logs_with_stops_def Let_def hours_inv_def
        intro: event_in_bounds_guarded split: if_splits)
qed

theorem event_hours_bounded_witness:
  "list_all (\<lambda>s. 0 \<le> duration_minutes s \<and> duration_minutes s \<le> 1440)
     (create_basic_trip_stops demo_trip) \<and>
   generate_eld_logs_with_stops (fixed_clock 0) no_great_circle demo_trip
     (create_basic_trip_stops demo_trip) 1100 = Inr fallback_logs \<and>
   list_all (\<lambda>l. list_all event_hours_guarded (events l)) fallback_logs"
proof -
  have d: "\<forall>s \<in> set (create_basic_trip_stops demo_trip).
             0 \<le> duration_minutes s \<and> duration_minutes s \<le> 1440"
    by (simp add: create_basic_trip_stops_def)
  have e: "generate_eld_logs_with_stops (fixed_clock 0) no_great_circle demo_trip
             (create_basic_trip_stops demo_trip) 1100 = Inr fallback_logs"
    by code_simp
  from event_hours_bounded [OF d e] d e show ?thesis by (simp add: list_all_iff)
qed

section \<open>The record of a driving chunk\<close>

lemma record_driving_logs:
  "st_logs (record_driving now prev stop m st) = st_logs st @
     [\<lparr>day = st_day st, date = now (length (st_logs st)) + (st_day st - 1),
       events = [\<lparr>ev_type = Driving, ev_start = round2 (current_hour st),
                  ev_end = round2 (current_hour st + m),
                  ev_location = ''Driving to '' @ location stop,
                  ev_metadata = Drive_metadata (location prev) (location stop)
                                  (round2 (m * AVERAGE_SPEED))\<rparr>],
       odometer = round2 (st_odometer st + m * AVERAGE_SPEED)\<rparr>]"
  by (simp add: record_driving_def Let_def)

lemma rest_after_driving_logs:
  "st_logs (insert_rest_break (record_driving now prev stop m st)) = st_logs st @
     [\<lparr>day = st_day st, date = now (length (st_logs st)) + (st_day st - 1),
       events = [\<lparr>ev_type = Driving, ev_start = round2 (current_hour st),
                  ev_end = round2 (current_hour st + m),
                  ev_location = ''Driving to '' @ location stop,
                  ev_metadata = Drive_metadata (location prev) (location stop)
                                  (round2 (m * AVERAGE_SPEED))\<rparr>,
                 \<lparr>ev_type = On_duty, ev_start = round2 (current_hour st + m),
                  ev_end = round2 (current_hour st + m + 1 / 2),
                  ev_location = ''Mandatory 30-minute rest'',
                  ev_metadata = No_metadata\<rparr>],
       odometer = round2 (st_odometer st + m * AVERAGE_SPEED)\<rparr>]"
  by (simp add: insert_rest_break_def record_driving_def Let_def)

lemma record_driving_fields:
  "current_hour (record_driving now prev stop m st) = current_hour st + m"
  "daily_drive_hours (record_driving now prev stop m st) = daily_drive_hours st + m"
  "st_odometer (record_driving now prev stop m st) = st_odometer st + m * AVERAGE_SPEED"
  "st_day (record_driving now prev stop m st) = st_day st"
  by (simp_all add: record_driving_def Let_def)

lemma insert_rest_break_fields:
  "current_hour (insert_rest_break st) = current_hour st + 1 / 2"
  "daily_drive_hours (insert_rest_break st) = 0"
  "st_odometer (insert_rest_break st) = st_odometer st"
  "st_day (insert_rest_break st) = st_day st"
  by (simp_all add: insert_rest_break_def)

section \<open>The odometer\<close>

lemma hundredths_simps [simp]:
  "hundredths 0" "hundredths (numeral n)" "hundredths (round2 x)"
  by (simp_all add: hundredths_def round2_def)

lemma hundredths_arith:
  assumes "hundredths x" "hundredths y"
  shows "hundredths (x + y)" "hundredths (x - y)" "hundredths (min x y)"
proof -
  show "hundredths (x + y)" "hundredths (x - y)"
    using assms by (simp_all add: hundredths_def algebra_simps)
  show "hundredths (min x y)" using assms by (simp add: min_def)
qed

lemma hundredths_speed:
  assumes "hundredths x"
  shows "hundredths (x * AVERAGE_SPEED)"
proof -
  have e: "x * AVERAGE_SPEED * 100 = x * 100 * 50" by (simp add: AVERAGE_SPEED_def)
  from assms have "x * 100 \<in> \<int>" by (simp only: hundredths_def)
  then have "x * 100 * 50 \<in> \<int>" by (rule Ints_mult) simp
  then show ?thesis unfolding hundredths_def e .
qed

lemma round2_hundredths: "hundredths x \<Longrightarrow> round2 x = x"
  by (simp add: hundredths_def round2_exact)

lemma odometer_chain_append:
  "odometer_chain reading (xs @ ys) \<longleftrightarrow>
     odometer_chain reading xs \<and> odometer_chain (last (reading # map odometer xs)) ys"
  by (induction xs arbitrary: reading) auto

lemma odometer_chain_sorted:
  "odometer_chain reading ls \<Longrightarrow> list_all (\<lambda>l. 0 \<le> record_miles l) ls \<Longrightarrow>
   sorted (reading # map odometer ls)"
proof (induction ls arbitrary: reading)
  case Nil
  then show ?case by simp
next
  case (Cons l ls)
  from Cons.prems(1) have c: "odometer_chain (odometer l) ls"
    and eq: "odometer l = reading + record_miles l"
    unfolding odometer_chain.simps by blast+
  from Cons.prems(2) have nn: "list_all (\<lambda>l. 0 \<le> record_miles l) ls"
    and m0: "0 \<le> record_miles l"
    by simp_all
  from eq m0 have le: "reading \<le> odometer l" by linarith
  from Cons.IH [OF c nn] have s: "sorted (odometer l # map odometer ls)" .
  then have "\<forall>x \<in> set (map odometer ls). odometer l \<le> x" by simp
  with le have "\<forall>x \<in> set (map odometer ls). reading \<le> x" by auto
  with s le show ?case by simp
qed

lemma odometer_inv_snoc:
  assumes "odometer_inv st" and "odometer l = st_odometer st + record_miles l"
    and "0 \<le> record_miles l" and "hundredths (odometer l)" and "hundredths d"
    and "st_logs st' = st_logs st @ [l]" and "st_odometer st' = odometer l"
    and "daily_drive_hours st' = d"
  shows "odometer_inv st'"
  using assms by (simp add: odometer_inv_def odometer_chain_append)

lemma start_new_day_odometer:
  assumes "odometer_inv st"
  shows "odometer_inv (start_new_day now st)"
proof -
  from assms have h: "hundredths (st_odometer st)" by (simp add: odometer_inv_def)
  show ?thesis
    by (rule odometer_inv_snoc [OF assms, where d = 0
          and l = "\<lparr>day = st_day st, date = now (length (st_logs st)) + (st_day st - 1), events = [],
                     odometer = round2 (st_odometer st)\<rparr>"])
       (simp_all add: start_new_day_def record_miles_def round2_hundredths [OF h] h)
qed

lemma driving_odometer:
  assumes "odometer_inv st" "hundredths m" "0 \<le> m"
  shows "odometer_inv (record_driving now prev stop m st)"
    and "odometer_inv (insert_rest_break (record_driving now prev stop m st))"
proof -
  from assms(1) have h: "hundredths (st_odometer st)" and hd: "hundredths (daily_drive_hours st)"
    by (simp_all add: odometer_inv_def)
  have hm: "hundredths (m * AVERAGE_SPEED)" using assms(2) by (rule hundredths_speed)
  have ho: "hundredths (st_odometer st + m * AVERAGE_SPEED)"
    using h hm by (rule hundredths_arith(1))
  have m0: "0 \<le> m * AVERAGE_SPEED" using assms(3) by (simp add: AVERAGE_SPEED_def)
  show "odometer_inv (record_driving now prev stop m st)"
    by (rule odometer_inv_snoc [OF assms(1) _ _ _ _ record_driving_logs,
          where d = "daily_drive_hours st + m"])
       (simp_all add: record_miles_def event_miles_def round2_hundredths [OF hm]
          round2_hundredths [OF ho] m0 ho record_driving_fields
          hundredths_arith(1) [OF hd assms(2)])
  show "odometer_inv (insert_rest_break (record_driving now prev stop m st))"
    by (rule odometer_inv_snoc [OF assms(1) _ _ _ _ rest_after_driving_logs, where d = 0])
       (simp_all add: record_miles_def event_miles_def round2_hundredths [OF hm]
          round2_hundredths [OF ho] m0 ho record_driving_fields insert_rest_break_fields)
qed

lemma drive_chunk_odometer:
  assumes "odometer_inv st" "hundredths drive_hours" "0 < drive_hours"
  shows "odometer_inv (fst (drive_chunk now prev stop st drive_hours))"
    and "hundredths (snd (drive_chunk now prev stop st drive_hours))"
proof -
  define st1 where "st1 = (if 11 \<le> daily_drive_hours st \<or> 14 \<le> current_hour st
                           then start_new_day now st else st)"
  define m where "m = min (11 - daily_drive_hours st1) drive_hours"
  define st2 where "st2 = record_driving now prev stop m st1"
  have dc: "drive_chunk now prev stop st drive_hours
      = (if 8 \<le> daily_drive_hours st2 then insert_rest_break st2 else st2, drive_hours - m)"
    unfolding drive_chunk_def Let_def st2_def m_def st1_def ..
  have i1: "odometer_inv st1" using assms(1) by (simp add: st1_def start_new_day_odometer)
  then have hd: "hundredths (daily_drive_hours st1)" by (simp add: odometer_inv_def)
  have d1: "daily_drive_hours st1 < 11" by (auto simp: st1_def start_new_day_def)
  have hm: "hundredths m"
    unfolding m_def using hd assms(2) by (intro hundredths_arith(3) hundredths_arith(2)) simp_all
  have m0: "0 \<le> m" using d1 assms(3) by (simp add: m_def)
  from driving_odometer [OF i1 hm m0, of now prev stop]
  show "odometer_inv (fst (drive_chunk now prev stop st drive_hours))"
    by (simp add: dc st2_def)
  show "hundredths (snd (drive_chunk now prev stop st drive_hours))"
    using assms(2) hm by (simp add: dc hundredths_arith(2))
qed

lemma drive_loop_odometer:
  "odometer_inv st \<Longrightarrow> hundredths drive_hours \<Longrightarrow>
   odometer_inv (drive_loop now prev stop st drive_hours)"
proof (induction now prev stop st drive_hours rule: drive_loop.induct)
  case (1 now prev stop st drive_hours)
  show ?case
  proof (cases "0 < drive_hours")
    case True
    obtain st' dh' where dc: "drive_chunk now prev stop st drive_hours = (st', dh')"
      by (cases "drive_chunk now prev stop st drive_hours")
    from drive_chunk_odometer [OF "1.prems" True, of now prev stop] dc
    have "odometer_inv st'" "hundredths dh'" by simp_all
    from "1.IH" [OF True dc [symmetric] this] True dc show ?thesis
      by (simp add: drive_loop.simps [of now prev stop st])
  next
    case False
    with "1.prems" show ?thesis by (simp add: drive_loop.simps [of now prev stop st])
  qed
qed

lemma add_stop_event_odometer:
  assumes "odometer_inv st"
  shows "odometer_inv (add_stop_event now stop st)"
proof -
  from assms have h: "hundredths (st_odometer st)" and hd: "hundredths (daily_drive_hours st)"
    by (simp_all add: odometer_inv_def)
  define dy where "dy = (if 24 < current_hour st + of_int (duration_minutes stop) / 60
                         then st_day st + 1 else st_day st)"
  define ch where "ch = (if 24 < current_hour st + of_int (duration_minutes stop) / 60
                         then 0 else current_hour st)"
  show ?thesis
    by (rule odometer_inv_snoc [OF assms, where
          d = "if 24 < current_hour st + of_int (duration_minutes stop) / 60
               then 0 else daily_drive_hours st"
          and l = "\<lparr>day = dy, date = now (length (st_logs st)) + (dy - 1),
                     events = [\<lparr>ev_type = Stop_event (stop_type stop), ev_start = round2 ch,
                                ev_end = round2 (ch + of_int (duration_minutes stop) / 60),
                                ev_location = location stop,
                                ev_metadata = Stop_metadata (metadata stop)\<rparr>],
                     odometer = round2 (st_odometer st)\<rparr>"])
       (simp_all add: add_stop_event_def Let_def record_miles_def event_miles_def
          round2_hundredths [OF h] h hd dy_def ch_def)
qed

lemma stops_loop_odometer:
  "odometer_inv st \<Longrightarrow>
   odometer_inv (stops_loop now great_circle total_miles n prev stops st)"
proof (induction stops arbitrary: prev st)
  case Nil
  then show ?case by simp
next
  case (Cons stop rest)
  define st1 where "st1 = (case prev of None \<Rightarrow> st
      | Some p \<Rightarrow> drive_loop now p stop st
                   (round2 (segment_miles great_circle total_miles n p stop / AVERAGE_SPEED)))"
  have "odometer_inv st1"
    using Cons.prems by (simp add: st1_def drive_loop_odometer split: option.splits)
  then have "odometer_inv (add_stop_event now stop st1)"
    by (rule add_stop_event_odometer)
  from Cons.IH [OF this] show ?case
    by (simp add: st1_def Let_def)
qed

text \<open>
  C10. The odometer readings of the returned records never decrease in emission order,
  and each record reads the previous reading (0 at the start) plus the miles of its
  driving event, which are the chunk times 50: a driving chunk moves the odometer by
  \<open>chunk \<times> 50\<close>, a rest and a stop event leave it alone.
\<close>

theorem odometer_follows_driving:
  assumes "generate_eld_logs_with_stops now great_circle t stops total_miles = Inr lgs"
  shows "sorted (map odometer lgs) \<and> odometer_chain 0 lgs \<and>
         st_odometer (fst (drive_chunk now prev stop st drive_hours))
           = st_odometer st + (drive_hours - snd (drive_chunk now prev stop st drive_hours)) * 50 \<and>
         st_odometer (insert_rest_break st) = st_odometer st \<and>
         st_odometer (add_stop_event now stop st) = st_odometer st"
proof -
  have "odometer_inv initial_state" by (simp add: odometer_inv_def initial_state_def)
  from stops_loop_odometer [OF this, of now great_circle total_miles "length stops" None stops]
    assms
  have c: "odometer_chain 0 lgs" and nn: "list_all (\<lambda>l. 0 \<le> record_miles l) lgs"
    by (auto simp: generate_eld_logs_with_stops_def Let_def odometer_inv_def split: if_splits)
  from odometer_chain_sorted [OF c nn] have s: "sorted (map odometer lgs)" by simp
  have d: "st_odometer (fst (drive_chunk now prev stop st drive_hours))
           = st_odometer st + (drive_hours - snd (drive_chunk now prev stop st drive_hours)) * 50"
    by (simp add: drive_chunk_def Let_def record_driving_fields insert_rest_break_fields
        start_new_day_def AVERAGE_SPEED_def)
  have r: "st_odometer (insert_rest_break st) = st_odometer st"
    by (rule insert_rest_break_fields)
  have a: "st_odometer (add_stop_event now stop st) = st_odometer st"
    by (simp add: add_stop_event_def Let_def)
  from s c d r a show ?thesis by blast
qed

theorem odometer_follows_driving_witness:
  "generate_eld_logs_with_stops (fixed_clock 0) no_great_circle demo_trip
     (create_basic_trip_stops demo_trip) 1100 = Inr fallback_logs \<and>
   sorted (map odometer fallback_logs) \<and> odometer_chain 0 fallback_logs \<and>
   map odometer fallback_logs = [0, 550, 1100, 1100]"
proof -
  have g: "generate_eld_logs_with_stops (fixed_clock 0) no_great_circle demo_trip
             (create_basic_trip_stops demo_trip) 1100 = Inr fallback_logs"
    by code_simp
  have m: "map odometer fallback_logs = [0, 550, 1100, 1100]"
    by code_simp
  from odometer_follows_driving [OF g] g m show ?thesis by blast
qed

section \<open>Exact arithmetic as an instance\<close>

text \<open>
  With operations that do not round, the simulator on float operations returns what
  the simulator on rationals returns.
\<close>

lemma exact_ops_sel:
  "fl_add exact_ops = (+)" "fl_sub exact_ops = (-)" "fl_mul exact_ops = (*)"
  "fl_div exact_ops = (/)" "fl_round2 exact_ops = round2"
  by (simp_all add: exact_ops_def)

lemma exact_steps:
  "fp_start_new_day exact_ops now st = start_new_day now st"
  "fp_record_driving exact_ops now prev stop m st = record_driving now prev stop m st"
  "fp_insert_rest_break exact_ops st = insert_rest_break st"
  "fp_add_stop_event exact_ops now stop st = add_stop_event now stop st"
  "fp_segment_miles exact_ops great_circle total_miles n prev stop
     = segment_miles great_circle total_miles n prev stop"
  by (simp_all add: exact_ops_def fp_start_new_day_def start_new_day_def fp_record_driving_def
      record_driving_def fp_insert_rest_break_def insert_rest_break_def fp_add_stop_event_def
      add_stop_event_def fp_segment_miles_def segment_miles_def split: option.splits)

lemma exact_drive_chunk:
  "fp_drive_chunk exact_ops now prev stop st drive_hours = drive_chunk now prev stop st drive_hours"
proof -
  have r: "fp_rollover exact_ops now st
             = (if 11 \<le> daily_drive_hours st \<or> 14 \<le> current_hour st
                then start_new_day now st else st)"
    by (simp add: fp_rollover_def exact_steps)
  have m: "fp_max_drive_today exact_ops s h = min (11 - daily_drive_hours s) h" for s h
    by (simp add: fp_max_drive_today_def exact_ops_def)
  have d: "fl_sub exact_ops a b = a - b" for a b
    by (simp add: exact_ops_def)
  show ?thesis
    unfolding fp_drive_chunk_def drive_chunk_def r m d exact_steps ..
qed

lemma exact_drive_loop:
  "fp_drive_loop k exact_ops now prev stop st drive_hours = Some st' \<Longrightarrow>
   drive_loop now prev stop st drive_hours = st'"
proof (induction k arbitrary: st drive_hours)
  case 0
  then have "\<not> 0 < drive_hours" and "st' = st" by (simp_all split: if_splits)
  then show ?case by (subst drive_loop.simps) simp
next
  case (Suc k)
  show ?case
  proof (cases "0 < drive_hours")
    case True
    obtain st1 dh1 where dc: "drive_chunk now prev stop st drive_hours = (st1, dh1)"
      by (cases "drive_chunk now prev stop st drive_hours")
    with Suc.prems True have "fp_drive_loop k exact_ops now prev stop st1 dh1 = Some st'"
      by (simp add: exact_drive_chunk)
    from Suc.IH [OF this] True dc show ?thesis
      by (subst drive_loop.simps) simp
  next
    case False
    with Suc.prems have "st' = st" by simp
    with False show ?thesis by (subst drive_loop.simps) simp
  qed
qed

lemma exact_stops_loop:
  "fp_stops_loop fuel exact_ops now great_circle total_miles n prev stops st = Some st' \<Longrightarrow>
   stops_loop now great_circle total_miles n prev stops st = st'"
proof (induction stops arbitrary: prev st)
  case Nil
  then show ?case by simp
next
  case (Cons stop rest)
  show ?case
  proof (cases prev)
    case None
    with Cons.prems Cons.IH show ?thesis by (simp add: exact_steps)
  next
    case (Some p)
    with Cons.prems obtain st1 where
      l: "fp_drive_loop fuel exact_ops now p stop st
            (round2 (segment_miles great_circle total_miles n p stop / AVERAGE_SPEED)) = Some st1"
      and r: "fp_stops_loop fuel exact_ops now great_circle total_miles n (Some stop) rest
                (add_stop_event now stop st1) = Some st'"
      by (auto simp: exact_steps exact_ops_sel split: option.splits)
    from exact_drive_loop [OF l] Cons.IH [OF r] Some show ?thesis by simp
  qed
qed

lemma exact_generate:
  "fp_generate_eld_logs_with_stops fuel exact_ops now great_circle t stops total_miles = Some r \<Longrightarrow>
   generate_eld_logs_with_stops now great_circle t stops total_miles = r"
  by (auto simp: fp_generate_eld_logs_with_stops_def generate_eld_logs_with_stops_def Let_def
      exact_ops_sel dest: exact_stops_loop split: if_splits)

section \<open>The mandatory rest\<close>












section \<open>The clock\<close>

lemma stamp_dates_simps [simp]:
  "stamp_dates now [] = []"
  "stamp_dates now (xs @ [x]) = stamp_dates now xs @ [x\<lparr>date := date x + now (length xs)\<rparr>]"
  "length (stamp_dates now xs) = length xs"
  by (simp_all add: stamp_dates_def enumerate_append_eq)

lemma stamp_state_fields [simp]:
  "current_hour (stamp_state now st) = current_hour st"
  "daily_drive_hours (stamp_state now st) = daily_drive_hours st"
  "st_odometer (stamp_state now st) = st_odometer st"
  "st_day (stamp_state now st) = st_day st"
  "st_logs (stamp_state now st) = stamp_dates now (st_logs st)"
  by (simp_all add: stamp_state_def)











end
